theory Spec2Isabelle
  imports Complex_Main
begin

section \<open>Numbers\<close>

text \<open>
  The program keeps positions, speeds and times in Python floats. They are modelled
  as rationals with exact arithmetic: the rounding error of IEEE doubles is not
  modelled, and the decimal literals of the source (0.1, 0.6, 1.2, 8.0) stand for
  the exact fractions. Python's integers are \<open>int\<close>.
\<close>

definition py_round :: "rat \<Rightarrow> int" where
  \<comment> \<open>Python 3 \<open>round(x)\<close> with one argument: nearest integer, ties to the even one.\<close>
  "py_round x =
     (let f = \<lfloor>x\<rfloor>; d = x - of_int f
      in if d < 1 / 2 then f
         else if 1 / 2 < d then f + 1
         else if even f then f else f + 1)"

definition py_int :: "rat \<Rightarrow> int" where
  \<comment> \<open>Python \<open>int(x)\<close> on a float: truncation towards zero.\<close>
  "py_int x = (if 0 \<le> x then \<lfloor>x\<rfloor> else \<lceil>x\<rceil>)"

section \<open>Static maze definition\<close>

definition MAZE_LAYOUT :: "string list" where
  "MAZE_LAYOUT =
  [''############################'',
   ''#............##............#'',
   ''#.####.#####.##.#####.####.#'',
   ''#o####.#####.##.#####.####o#'',
   ''#.####.#####.##.#####.####.#'',
   ''#..........................#'',
   ''#.####.##.########.##.####.#'',
   ''#.####.##.########.##.####.#'',
   ''#......##....##....##......#'',
   ''######.##### ## #####.######'',
   ''     #.##### ## #####.#     '',
   ''     #.##          ##.#     '',
   ''     #.## ###GG### ##.#     '',
   ''######.## #      # ##.######'',
   ''      .   # PPPP #   .      '',
   ''######.## #      # ##.######'',
   ''     #.## ######## ##.#     '',
   ''     #.##          ##.#     '',
   ''     #.##### ## #####.#     '',
   ''######.##### ## #####.######'',
   ''#............##............#'',
   ''#.####.#####.##.#####.####.#'',
   ''#o..##................##..o#'',
   ''###.##.##.########.##.##.###'',
   ''#......##....##....##......#'',
   ''#.##########.##.##########.#'',
   ''#..........................#'',
   ''############################'']"

definition ROWS :: int where
  "ROWS = int (length MAZE_LAYOUT)"

definition COLS :: int where
  "COLS = int (length (MAZE_LAYOUT ! 0))"

definition is_wall :: "int \<Rightarrow> int \<Rightarrow> bool" where
  "is_wall c r =
     (if 0 \<le> r \<and> r < ROWS \<and> 0 \<le> c \<and> c < COLS
      then MAZE_LAYOUT ! nat r ! nat c = CHR ''#''
      else True)"

definition valid_cell :: "int \<Rightarrow> int \<Rightarrow> bool" where
  "valid_cell c r = (0 \<le> r \<and> r < ROWS \<and> 0 \<le> c \<and> c < COLS \<and> \<not> is_wall c r)"

section \<open>Entity\<close>

record entity =
  col :: rat
  row :: rat
  dir :: "int \<times> int"
  speed :: rat

definition cell_centered :: "'a entity_scheme \<Rightarrow> bool" where
  "cell_centered e =
     (let cx = py_round (col e); cy = py_round (row e)
      in \<bar>col e - of_int cx\<bar> < 1 / 10 \<and> \<bar>row e - of_int cy\<bar> < 1 / 10)"

definition set_dir_if_valid :: "'a entity_scheme \<Rightarrow> int \<times> int \<Rightarrow> 'a entity_scheme" where
  "set_dir_if_valid e d =
     (let dx = fst d; dy = snd d;
          ncol = py_round (col e + of_int dx);
          nrow = py_round (row e + of_int dy)
      in if valid_cell ncol nrow
         then e\<lparr>dir := d, col := of_int (py_round (col e)), row := of_int (py_round (row e))\<rparr>
         else e)"

definition tunnel_wrap :: "rat \<Rightarrow> rat" where
  \<comment> \<open>\<open>if c < 0: c = COLS - 1 elif c >= COLS: c = 0\<close>, written twice in \<open>update_move\<close>.\<close>
  "tunnel_wrap c = (if c < 0 then of_int (COLS - 1) else if of_int COLS \<le> c then 0 else c)"

fun samples_clear :: "rat \<Rightarrow> rat \<Rightarrow> rat \<Rightarrow> rat \<Rightarrow> nat \<Rightarrow> nat list \<Rightarrow> bool" where
  \<comment> \<open>The \<open>for i in range(steps)\<close> loop of \<open>update_move\<close>; False is its early \<open>return\<close>.\<close>
  "samples_clear c r next_col next_row steps [] = True"
| "samples_clear c r next_col next_row steps (i # is) =
     (let t = of_nat (i + 1) / of_nat steps;
          pcol = tunnel_wrap (c + (next_col - c) * t);
          prow = r + (next_row - r) * t;
          ic = py_round pcol;
          ir = py_round prow
      in if is_wall ic ir then False
         else samples_clear c r next_col next_row steps is)"

definition update_move :: "'a entity_scheme \<Rightarrow> rat \<Rightarrow> 'a entity_scheme" where
  "update_move e dt =
     (let next_col = col e + of_int (fst (dir e)) * speed e * dt;
          next_row = row e + of_int (snd (dir e)) * speed e * dt;
          steps = nat (max 1 (py_int (max \<bar>next_col - col e\<bar> \<bar>next_row - row e\<bar> * 4)))
      in if samples_clear (col e) (row e) next_col next_row steps [0..<steps]
         then e\<lparr>col := tunnel_wrap next_col, row := next_row\<rparr>
         else e)"

section \<open>Maze\<close>

record maze =
  pellets :: "(int \<times> int) set"
  power_pellets :: "(int \<times> int) set"
  player_start :: "int \<times> int"
  ghost_starts :: "(int \<times> int) list"

definition layout_cells :: "(int \<times> int \<times> char) list" where
  \<comment> \<open>The cells in the order of the two nested \<open>enumerate\<close> loops: (c, r, ch).\<close>
  "layout_cells =
     concat (map (\<lambda>(r, line). map (\<lambda>(c, ch). (int c, int r, ch)) (enumerate 0 line))
                 (enumerate 0 MAZE_LAYOUT))"

fun Maze_scan ::
  "(int \<times> int) set \<times> (int \<times> int) set \<times> (int \<times> int) option \<times> (int \<times> int) list \<Rightarrow>
   int \<times> int \<times> char \<Rightarrow>
   (int \<times> int) set \<times> (int \<times> int) set \<times> (int \<times> int) option \<times> (int \<times> int) list" where
  \<comment> \<open>The body of the loops of \<open>Maze.__init__\<close>; \<open>player_start\<close> is None until found.\<close>
  "Maze_scan (pel, pow, ps, gs) (c, r, ch) =
     (if ch = CHR ''.'' then (insert (c, r) pel, pow, ps, gs)
      else if ch = CHR ''o'' then (pel, insert (c, r) pow, ps, gs)
      else if ch = CHR ''P'' \<and> ps = None then (pel, pow, Some (c, r), gs)
      else if ch = CHR ''G'' then (pel, pow, ps, gs @ [(c, r)])
      else (pel, pow, ps, gs))"

definition Maze_init :: maze where
  "Maze_init =
     (case foldl Maze_scan ({}, {}, None, []) layout_cells of
        (pel, pow, ps, gs) \<Rightarrow>
          \<lparr>pellets = pel,
           power_pellets = pow,
           player_start = (case ps of None \<Rightarrow> (COLS div 2, ROWS div 2) | Some p \<Rightarrow> p),
           ghost_starts =
             (if gs = [] then [(COLS div 2 - 1, ROWS div 2), (COLS div 2 + 1, ROWS div 2)]
              else gs)\<rparr>)"

section \<open>Player\<close>

record player = entity +
  next_dir :: "int \<times> int"
  lives :: int
  score :: int

definition Player_init :: "int \<Rightarrow> int \<Rightarrow> player" where
  "Player_init c r =
     \<lparr>col = of_int c, row = of_int r, dir = (0, 0), speed = 8,
      next_dir = (0, 0), lives = 3, score = 0\<rparr>"

datatype key = K_UP | K_DOWN | K_LEFT | K_RIGHT | K_a | K_d | K_w | K_s

definition handle_input :: "player \<Rightarrow> (key \<Rightarrow> bool) \<Rightarrow> player" where
  "handle_input p pressed =
     p\<lparr>next_dir :=
         (if pressed K_LEFT \<or> pressed K_a then (- 1, 0)
          else if pressed K_RIGHT \<or> pressed K_d then (1, 0)
          else if pressed K_UP \<or> pressed K_w then (0, - 1)
          else if pressed K_DOWN \<or> pressed K_s then (0, 1)
          else next_dir p)\<rparr>"

definition Player_turn :: "player \<Rightarrow> player" where
  \<comment> \<open>The first statement of \<open>Player.update\<close>: try to apply \<open>next_dir\<close> when centered.\<close>
  "Player_turn p =
     (if cell_centered p \<and> next_dir p \<noteq> dir p then set_dir_if_valid p (next_dir p) else p)"

definition Player_update :: "player \<Rightarrow> maze \<Rightarrow> rat \<Rightarrow> string option \<times> player \<times> maze" where
  "Player_update p mz dt =
     (let p1 = update_move (Player_turn p) dt;
          c = py_round (col p1);
          r = py_round (row p1);
          (p2, mz1) =
            (if (c, r) \<in> pellets mz
             then (p1\<lparr>score := score p1 + 10\<rparr>, mz\<lparr>pellets := pellets mz - {(c, r)}\<rparr>)
             else (p1, mz))
      in if (c, r) \<in> power_pellets mz1
         then (Some ''power'', p2\<lparr>score := score p2 + 50\<rparr>,
               mz1\<lparr>power_pellets := power_pellets mz1 - {(c, r)}\<rparr>)
         else (None, p2, mz1))"

section \<open>Ghost\<close>

record ghost = entity +
  color :: "nat \<times> nat \<times> nat"
  base_speed :: rat
  frightened :: bool
  eaten :: bool
  home :: "int \<times> int"

definition Ghost_init :: "int \<Rightarrow> int \<Rightarrow> nat \<times> nat \<times> nat \<Rightarrow> ghost" where
  "Ghost_init c r clr =
     \<lparr>col = of_int c, row = of_int r, dir = (0, 0), speed = 6,
      color = clr, base_speed = 6, frightened = False, eaten = False, home = (c, r)\<rparr>"

definition available_dirs :: "'a entity_scheme \<Rightarrow> (int \<times> int) list" where
  "available_dirs e =
     filter (\<lambda>d. valid_cell (py_round (col e + of_int (fst d))) (py_round (row e + of_int (snd d))))
            [(- 1, 0), (1, 0), (0, - 1), (0, 1)]"

type_synonym 'r shuffle = "(int \<times> int) list \<Rightarrow> 'r \<Rightarrow> (int \<times> int) list \<times> 'r"

text \<open>
  \<open>random.shuffle\<close> belongs to Python's library. The random source is a parameter of
  the model: a state of some type \<open>'r\<close> and a function that returns the rearranged
  list together with the next state. Python's \<open>list.sort(key=...)\<close> is stable, as
  \<open>sort_key\<close> is, and \<open>options[0]\<close> is read only when \<open>options\<close> is not empty.
\<close>

definition Ghost_update :: "'r shuffle \<Rightarrow> ghost \<Rightarrow> rat \<Rightarrow> int \<times> int \<Rightarrow> 'r \<Rightarrow> ghost \<times> 'r" where
  "Ghost_update shuffle g0 dt player_pos rng =
     (let g = g0\<lparr>speed := (if eaten g0 then base_speed g0 * (6 / 5)
                           else if frightened g0 then base_speed g0 * (3 / 5)
                           else base_speed g0)\<rparr>;
          (g1, rng1) =
            (if cell_centered g then
               (let options0 = available_dirs g;
                    opposite = (- fst (dir g), - snd (dir g));
                    options = (if 1 < length options0 \<and> opposite \<in> set options0
                               then remove1 opposite options0 else options0);
                    dist_sq_after_dir = (\<lambda>d.
                      let nx = py_round (col g) + fst d;
                          ny = py_round (row g) + snd d;
                          px = fst player_pos;
                          py = snd player_pos
                      in (nx - px)\<^sup>2 + (ny - py)\<^sup>2)
                in if options \<noteq> [] then
                     (if eaten g then
                        (let hx = fst (home g); hy = snd (home g)
                         in (g\<lparr>dir := hd (sort_key
                                 (\<lambda>d. (py_round (col g) + fst d - hx)\<^sup>2
                                     + (py_round (row g) + snd d - hy)\<^sup>2) options)\<rparr>, rng))
                      else if frightened g then
                        (g\<lparr>dir := hd (sort_key (\<lambda>d. - dist_sq_after_dir d) options)\<rparr>, rng)
                      else
                        (let (shuffled, rng') = shuffle options rng
                         in (g\<lparr>dir := hd (sort_key dist_sq_after_dir shuffled)\<rparr>, rng')))
                   else (g, rng))
             else (g, rng))
      in (update_move g1 dt, rng1))"

section \<open>Game\<close>

datatype mode = STATE_PLAYING | STATE_POWER | STATE_GAMEOVER

datatype py_error = ZeroDivisionError

record game =
  maze :: maze
  player :: player
  ghosts :: "ghost list"
  state :: mode
  power_timer :: rat

definition RED :: "nat \<times> nat \<times> nat" where "RED = (255, 0, 0)"
definition PINK :: "nat \<times> nat \<times> nat" where "PINK = (255, 105, 180)"
definition CYAN :: "nat \<times> nat \<times> nat" where "CYAN = (0, 255, 255)"
definition ORANGE :: "nat \<times> nat \<times> nat" where "ORANGE = (255, 165, 0)"

definition POWER_DURATION :: rat where "POWER_DURATION = 8"

definition reset_level :: "bool \<Rightarrow> game \<Rightarrow> game" where
  \<comment> \<open>\<open>full_reset\<close> changes nothing: the caller restores score and lives itself.\<close>
  "reset_level full_reset gm =
     (let mz = Maze_init;
          ps = player_start mz;
          colors = [RED, PINK, CYAN, ORANGE];
          starts = ghost_starts mz
      in gm\<lparr>maze := mz,
            player := Player_init (fst ps) (snd ps),
            ghosts := map (\<lambda>i. Ghost_init (fst (starts ! i)) (snd (starts ! i))
                                  (colors ! (i mod length colors)))
                          [0..<min 4 (length starts)],
            state := STATE_PLAYING,
            power_timer := 0\<rparr>)"

definition set_power_mode :: "game \<Rightarrow> game" where
  "set_power_mode gm =
     gm\<lparr>state := STATE_POWER,
        power_timer := POWER_DURATION,
        ghosts := map (\<lambda>g. if \<not> eaten g then g\<lparr>frightened := True\<rparr> else g) (ghosts gm)\<rparr>"

definition update_power_timer :: "game \<Rightarrow> rat \<Rightarrow> game" where
  "update_power_timer gm dt =
     (if state gm = STATE_POWER then
        (let gm1 = gm\<lparr>power_timer := power_timer gm - dt\<rparr>
         in if power_timer gm1 \<le> 0
            then gm1\<lparr>state := STATE_PLAYING,
                     ghosts := map (\<lambda>g. g\<lparr>frightened := False,
                                           eaten := (if eaten g then False else eaten g)\<rparr>)
                                   (ghosts gm1)\<rparr>
            else gm1)
      else gm)"

definition lose_life_and_reset_positions :: "game \<Rightarrow> py_error + game" where
  \<comment> \<open>\<open>i % len(ghost_starts)\<close> raises ZeroDivisionError when there is a ghost and no start.\<close>
  "lose_life_and_reset_positions gm =
     (let ps = player_start (maze gm);
          pl = (player gm)\<lparr>lives := lives (player gm) - 1\<rparr>
                 \<lparr>col := of_int (fst ps), row := of_int (snd ps), dir := (0, 0)\<rparr>;
          starts = ghost_starts (maze gm)
      in if ghosts gm \<noteq> [] \<and> starts = [] then Inl ZeroDivisionError
         else Inr (gm\<lparr>player := pl,
                      ghosts := map (\<lambda>(i, g).
                                  let gs = starts ! (i mod length starts)
                                  in g\<lparr>col := of_int (fst gs), row := of_int (snd gs),
                                       dir := (0, 0), frightened := False, eaten := False\<rparr>)
                                (enumerate 0 (ghosts gm)),
                      state := STATE_PLAYING,
                      power_timer := 0\<rparr>))"

definition collide :: "int \<Rightarrow> int \<Rightarrow> nat \<Rightarrow> game \<Rightarrow> py_error + bool \<times> game" where
  \<comment> \<open>One pass through the body of the first loop of \<open>handle_collisions\<close>, for the ghost
      at index \<open>i\<close>; the flag is True when the pass ends in \<open>break\<close>.\<close>
  "collide pc pr i gm =
     (let g = ghosts gm ! i;
          gc = py_round (col g);
          gr = py_round (row g)
      in if pc = gc \<and> pr = gr then
           (if frightened g \<and> \<not> eaten g then
              Inr (False,
                   gm\<lparr>player := (player gm)\<lparr>score := score (player gm) + 200\<rparr>,
                      ghosts := (ghosts gm)[i := g\<lparr>eaten := True, frightened := False\<rparr>]\<rparr>)
            else if \<not> eaten g then
              (case lose_life_and_reset_positions gm of
                 Inl e \<Rightarrow> Inl e
               | Inr gm' \<Rightarrow> Inr (True, gm'))
            else Inr (False, gm))
         else Inr (False, gm))"

fun collide_loop :: "int \<Rightarrow> int \<Rightarrow> nat list \<Rightarrow> game \<Rightarrow> py_error + game" where
  "collide_loop pc pr [] gm = Inr gm"
| "collide_loop pc pr (i # is) gm =
     (case collide pc pr i gm of
        Inl e \<Rightarrow> Inl e
      | Inr (brk, gm') \<Rightarrow> if brk then Inr gm' else collide_loop pc pr is gm')"

definition revive :: "ghost \<Rightarrow> ghost" where
  \<comment> \<open>The body of the second loop of \<open>handle_collisions\<close>.\<close>
  "revive g =
     (if eaten g \<and> py_round (col g) = fst (home g) \<and> py_round (row g) = snd (home g)
      then g\<lparr>eaten := False, frightened := False\<rparr>
      else g)"

definition handle_collisions :: "game \<Rightarrow> py_error + game" where
  "handle_collisions gm =
     (let pc = py_round (col (player gm));
          pr = py_round (row (player gm))
      in case collide_loop pc pr [0..<length (ghosts gm)] gm of
           Inl e \<Rightarrow> Inl e
         | Inr gm1 \<Rightarrow> Inr (gm1\<lparr>ghosts := map revive (ghosts gm1)\<rparr>))"

definition update_player :: "game \<Rightarrow> (key \<Rightarrow> bool) \<Rightarrow> rat \<Rightarrow> game" where
  \<comment> \<open>\<open>Game.update\<close> up to \<open>set_power_mode\<close>: input, the player's update, power activation.\<close>
  "update_player gm pressed dt =
     (let (power_trigger, p, mz) = Player_update (handle_input (player gm) pressed) (maze gm) dt;
          gm1 = gm\<lparr>player := p, maze := mz\<rparr>
      in if power_trigger = Some ''power'' then set_power_mode gm1 else gm1)"

fun ghosts_loop ::
  "'r shuffle \<Rightarrow> rat \<Rightarrow> int \<times> int \<Rightarrow> ghost list \<Rightarrow> 'r \<Rightarrow> ghost list \<times> 'r" where
  "ghosts_loop shuffle dt ppos [] rng = ([], rng)"
| "ghosts_loop shuffle dt ppos (g # gs) rng =
     (let (g', rng1) = Ghost_update shuffle g dt ppos rng;
          (gs', rng2) = ghosts_loop shuffle dt ppos gs rng1
      in (g' # gs', rng2))"

definition update_ghosts :: "'r shuffle \<Rightarrow> game \<Rightarrow> rat \<Rightarrow> 'r \<Rightarrow> game \<times> 'r" where
  \<comment> \<open>\<open>Game.update\<close>: the snapshot \<open>ppos\<close> and the loop over the ghosts.\<close>
  "update_ghosts shuffle gm dt rng =
     (let ppos = (py_round (col (player gm)), py_round (row (player gm)));
          (gs, rng') = ghosts_loop shuffle dt ppos (ghosts gm) rng
      in (gm\<lparr>ghosts := gs\<rparr>, rng'))"

definition update_level_clear :: "game \<Rightarrow> game" where
  \<comment> \<open>\<open>Game.update\<close>: the check for a cleared level.\<close>
  "update_level_clear gm =
     (if pellets (maze gm) = {} \<and> power_pellets (maze gm) = {} then
        (let old_score = score (player gm);
             old_lives = lives (player gm);
             gm1 = reset_level False gm
         in gm1\<lparr>player := (player gm1)\<lparr>score := old_score, lives := old_lives\<rparr>\<rparr>)
      else gm)"

definition update_game_over :: "game \<Rightarrow> game" where
  "update_game_over gm = (if lives (player gm) \<le> 0 then gm\<lparr>state := STATE_GAMEOVER\<rparr> else gm)"

definition update :: "'r shuffle \<Rightarrow> game \<Rightarrow> (key \<Rightarrow> bool) \<Rightarrow> rat \<Rightarrow> 'r \<Rightarrow> py_error + game \<times> 'r" where
  "update shuffle gm pressed dt rng =
     (let gm1 = update_player gm pressed dt;
          (gm2, rng') = update_ghosts shuffle gm1 dt rng
      in case handle_collisions gm2 of
           Inl e \<Rightarrow> Inl e
         | Inr gm3 \<Rightarrow>
             Inr (update_power_timer (update_game_over (update_level_clear gm3)) dt, rng'))"

section \<open>Scenarios\<close>

text \<open>Concrete states on which the theorems below are evaluated.\<close>

definition expiry_game :: game where
  \<comment> \<open>POWER mode about to expire, one ghost retreating (eaten), one frightened.\<close>
  "expiry_game =
     \<lparr>maze = \<lparr>pellets = {(1, 1)}, power_pellets = {}, player_start = (12, 14),
              ghost_starts = [(13, 12), (14, 12)]\<rparr>,
      player = \<lparr>col = 1, row = 5, dir = (1, 0), speed = 8,
                next_dir = (1, 0), lives = 3, score = 250\<rparr>,
      ghosts = [\<lparr>col = 20, row = 5, dir = (- 1, 0), speed = 36 / 5,
                 color = RED, base_speed = 6, frightened = False, eaten = True,
                 home = (13, 12)\<rparr>,
                \<lparr>col = 6, row = 20, dir = (0, 1), speed = 18 / 5,
                 color = PINK, base_speed = 6, frightened = True, eaten = False,
                 home = (14, 12)\<rparr>],
      state = STATE_POWER,
      power_timer = 1 / 100\<rparr>"

definition turning_player :: player where
  \<comment> \<open>The player near its start cell (12, 14), asking to turn left.\<close>
  "turning_player =
     \<lparr>col = 301 / 25, row = 14, dir = (0, 0), speed = 8,
      next_dir = (- 1, 0), lives = 3, score = 0\<rparr>"

definition frightened_meeting_game :: game where
  \<comment> \<open>POWER mode; the first ghost, frightened, is in the player's cell (6, 5).\<close>
  "frightened_meeting_game =
     \<lparr>maze = \<lparr>pellets = {(1, 1)}, power_pellets = {}, player_start = (12, 14),
              ghost_starts = [(13, 12), (14, 12)]\<rparr>,
      player = \<lparr>col = 6, row = 5, dir = (1, 0), speed = 8,
                next_dir = (1, 0), lives = 3, score = 50\<rparr>,
      ghosts = [\<lparr>col = 31 / 5, row = 5, dir = (1, 0), speed = 18 / 5,
                 color = RED, base_speed = 6, frightened = True, eaten = False,
                 home = (13, 12)\<rparr>,
                \<lparr>col = 20, row = 5, dir = (- 1, 0), speed = 18 / 5,
                 color = PINK, base_speed = 6, frightened = True, eaten = False,
                 home = (14, 12)\<rparr>],
      state = STATE_POWER,
      power_timer = 5\<rparr>"

definition normal_meeting_game :: game where
  \<comment> \<open>PLAYING mode; the second ghost, normal, is in the player's cell (6, 5).\<close>
  "normal_meeting_game =
     \<lparr>maze = \<lparr>pellets = {(1, 1)}, power_pellets = {(1, 3)}, player_start = (12, 14),
              ghost_starts = [(13, 12), (14, 12)]\<rparr>,
      player = \<lparr>col = 6, row = 5, dir = (1, 0), speed = 8,
                next_dir = (1, 0), lives = 3, score = 40\<rparr>,
      ghosts = [\<lparr>col = 20, row = 5, dir = (- 1, 0), speed = 6,
                 color = RED, base_speed = 6, frightened = False, eaten = False,
                 home = (13, 12)\<rparr>,
                \<lparr>col = 6, row = 26 / 5, dir = (0, - 1), speed = 6,
                 color = PINK, base_speed = 6, frightened = False, eaten = False,
                 home = (14, 12)\<rparr>],
      state = STATE_PLAYING,
      power_timer = 0\<rparr>"

definition cleared_game :: game where
  \<comment> \<open>The last pellet has just been eaten: both sets are empty.\<close>
  "cleared_game =
     \<lparr>maze = \<lparr>pellets = {}, power_pellets = {}, player_start = (12, 14),
              ghost_starts = [(13, 12), (14, 12)]\<rparr>,
      player = \<lparr>col = 26, row = 26, dir = (1, 0), speed = 8,
                next_dir = (1, 0), lives = 2, score = 2660\<rparr>,
      ghosts = [\<lparr>col = 20, row = 5, dir = (- 1, 0), speed = 6,
                 color = RED, base_speed = 6, frightened = False, eaten = False,
                 home = (13, 12)\<rparr>,
                \<lparr>col = 6, row = 20, dir = (0, 1), speed = 6,
                 color = PINK, base_speed = 6, frightened = False, eaten = False,
                 home = (14, 12)\<rparr>],
      state = STATE_PLAYING,
      power_timer = 0\<rparr>"

definition flip_shuffle :: "nat shuffle" where
  \<comment> \<open>A random source for the scenarios: a counter; odd draws reverse the list.\<close>
  "flip_shuffle xs n = (if even n then xs else rev xs, Suc n)"

definition no_keys :: "key \<Rightarrow> bool" where
  "no_keys k = False"

definition power_pellet_game :: game where
  \<comment> \<open>The player one cell below the power pellet at (1, 3), moving up; ghosts at home.\<close>
  "power_pellet_game =
     \<lparr>maze = \<lparr>pellets = {(1, 1)}, power_pellets = {(1, 3)}, player_start = (12, 14),
              ghost_starts = [(13, 12), (14, 12)]\<rparr>,
      player = \<lparr>col = 1, row = 4, dir = (0, - 1), speed = 8,
                next_dir = (0, - 1), lives = 3, score = 0\<rparr>,
      ghosts = [Ghost_init 13 12 RED, Ghost_init 14 12 PINK],
      state = STATE_PLAYING,
      power_timer = 0\<rparr>"

definition right_edge_entity :: entity where
  \<comment> \<open>In the tunnel row at the last column, moving right.\<close>
  "right_edge_entity = \<lparr>col = 27, row = 14, dir = (1, 0), speed = 8\<rparr>"

definition power_capture_game :: game where
  \<comment> \<open>As \<open>power_pellet_game\<close>, with a normal ghost waiting on the power pellet.\<close>
  "power_capture_game =
     \<lparr>maze = \<lparr>pellets = {(1, 1)}, power_pellets = {(1, 3)}, player_start = (12, 14),
              ghost_starts = [(13, 12), (14, 12)]\<rparr>,
      player = \<lparr>col = 1, row = 4, dir = (0, - 1), speed = 8,
                next_dir = (0, - 1), lives = 3, score = 0\<rparr>,
      ghosts = [\<lparr>col = 1, row = 3, dir = (0, 0), speed = 6,
                 color = RED, base_speed = 6, frightened = False, eaten = False,
                 home = (13, 12)\<rparr>,
                Ghost_init 14 12 PINK],
      state = STATE_PLAYING,
      power_timer = 0\<rparr>"

definition left_edge_entity :: entity where
  \<comment> \<open>In the tunnel row at column 0, moving left.\<close>
  "left_edge_entity = \<lparr>col = 0, row = 14, dir = (- 1, 0), speed = 8\<rparr>"

section \<open>Reachable states\<close>

definition flags_exclusive :: "game \<Rightarrow> bool" where
  "flags_exclusive gm = (\<forall>g \<in> set (ghosts gm). \<not> (frightened g \<and> eaten g))"

text \<open>
  \<open>Game.__init__\<close> calls \<open>reset_level(full_reset=True)\<close>, which assigns every field;
  \<open>run\<close> calls \<open>update\<close> while the mode is not GAMEOVER, with whatever keys, dt and random
  draws arrive; \<open>process_events\<close> restarts a game that is over.
\<close>

inductive reachable :: "'r shuffle \<Rightarrow> game \<Rightarrow> bool" for shuffle :: "'r shuffle" where
  start: "reachable shuffle (reset_level True gm0)"
| tick: "reachable shuffle gm \<Longrightarrow> state gm \<noteq> STATE_GAMEOVER \<Longrightarrow>
         update shuffle gm pressed dt rng = Inr (gm', rng') \<Longrightarrow> reachable shuffle gm'"
| restart: "reachable shuffle gm \<Longrightarrow> state gm = STATE_GAMEOVER \<Longrightarrow>
         reachable shuffle (reset_level True gm)"

section \<open>Movement never ends in a wall\<close>

lemma samples_clear_nth:
  "samples_clear c r nc nr steps is \<Longrightarrow> i \<in> set is \<Longrightarrow>
   \<not> is_wall (py_round (tunnel_wrap (c + (nc - c) * (of_nat (i + 1) / of_nat steps))))
              (py_round (r + (nr - r) * (of_nat (i + 1) / of_nat steps)))"
  by (induction "is") (auto simp: Let_def split: if_splits)

lemma samples_clear_last:
  assumes "samples_clear c r nc nr steps [0..<steps]" and "0 < steps"
  shows "\<not> is_wall (py_round (tunnel_wrap nc)) (py_round nr)"
proof -
  have "steps - 1 \<in> set [0..<steps]" using assms(2) by simp
  from samples_clear_nth [OF assms(1) this] assms(2) show ?thesis by simp
qed

text \<open>
  Claim C2. If the position of an entity rounds to a cell that is not a wall, then for
  every direction, speed and dt the position after \<open>update_move\<close> rounds to a cell that
  is not a wall: the last sample of the loop is the candidate position itself, wrapped
  as the committed column is, and a blocked sample leaves the entity where it was.
\<close>

theorem update_move_never_wall:
  "\<not> is_wall (py_round (col e)) (py_round (row e)) \<Longrightarrow>
   \<not> is_wall (py_round (col (update_move e dt))) (py_round (row (update_move e dt)))"
proof -
  assume start: "\<not> is_wall (py_round (col e)) (py_round (row e))"
  define nc where "nc = col e + of_int (fst (dir e)) * speed e * dt"
  define nr where "nr = row e + of_int (snd (dir e)) * speed e * dt"
  define steps where "steps = nat (max 1 (py_int (max \<bar>nc - col e\<bar> \<bar>nr - row e\<bar> * 4)))"
  have pos: "0 < steps" by (simp add: steps_def)
  show ?thesis
  proof (cases "samples_clear (col e) (row e) nc nr steps [0..<steps]")
    case True
    then have "update_move e dt = e\<lparr>col := tunnel_wrap nc, row := nr\<rparr>"
      by (simp add: update_move_def Let_def nc_def nr_def steps_def)
    with samples_clear_last [OF True pos] show ?thesis by simp
  next
    case False
    then have "update_move e dt = e"
      by (simp add: update_move_def Let_def nc_def nr_def steps_def)
    with start show ?thesis by simp
  qed
qed

theorem update_move_never_wall_witness:
  "\<not> is_wall (py_round (col \<lparr>col = 26, row = 14, dir = (1, 0), speed = 8\<rparr>))
              (py_round (row \<lparr>col = 26, row = 14, dir = (1, 0), speed = 8\<rparr>)) \<and>
   \<not> is_wall (py_round (col (update_move \<lparr>col = 26, row = 14, dir = (1, 0), speed = 8\<rparr> (1 / 8))))
              (py_round (row (update_move \<lparr>col = 26, row = 14, dir = (1, 0), speed = 8\<rparr> (1 / 8))))"
proof -
  have h: "\<not> is_wall (py_round (col \<lparr>col = 26, row = 14, dir = (1, 0), speed = 8\<rparr>))
                      (py_round (row \<lparr>col = 26, row = 14, dir = (1, 0), speed = 8\<rparr>))"
    by code_simp
  from update_move_never_wall [OF h, of "1 / 8"] h show ?thesis by blast
qed

section \<open>Rounding\<close>

lemma py_round_add_int:
  "\<bar>x - of_int (py_round x)\<bar> < 1 / 10 \<Longrightarrow> py_round (x + of_int k) = py_round x + k"
proof -
  assume a: "\<bar>x - of_int (py_round x)\<bar> < 1 / 10"
  have f: "\<lfloor>x + of_int k\<rfloor> = \<lfloor>x\<rfloor> + k" by simp
  have ne: "x - of_int \<lfloor>x\<rfloor> \<noteq> 1 / 2"
  proof
    assume h: "x - of_int \<lfloor>x\<rfloor> = 1 / 2"
    then have "py_round x = \<lfloor>x\<rfloor> \<or> py_round x = \<lfloor>x\<rfloor> + 1"
      by (simp add: py_round_def Let_def)
    then show False using a h by (auto simp: abs_if split: if_splits)
  qed
  show ?thesis using ne by (simp add: py_round_def Let_def f)
qed

lemma py_round_half: "\<bar>x - of_int (py_round x)\<bar> \<le> 1 / 2"
proof -
  define f where "f = \<lfloor>x\<rfloor>"
  define d where "d = x - of_int f"
  have b: "0 \<le> d" "d < 1" unfolding d_def f_def by linarith+
  have x: "x = of_int f + d" by (simp add: d_def)
  have r: "py_round x = (if d < 1 / 2 then f
         else if 1 / 2 < d then f + 1
         else if even f then f else f + 1)"
    by (simp add: py_round_def Let_def f_def d_def)
  show ?thesis
  proof (cases "d < 1 / 2")
    case True
    with b r x show ?thesis by simp
  next
    case False
    show ?thesis
    proof (cases "1 / 2 < d")
      case True
      with b r x show ?thesis by simp
    next
      case F2: False
      with False have "d = 1 / 2" by simp
      with r x show ?thesis by (cases "even f") simp_all
    qed
  qed
qed

lemma py_round_nearest: "\<bar>x - of_int (py_round x)\<bar> \<le> \<bar>x - of_int k\<bar>"
proof (cases "k = py_round x")
  case True
  then show ?thesis by simp
next
  case False
  then have "1 \<le> \<bar>k - py_round x\<bar>" by linarith
  then have "(1::rat) \<le> \<bar>of_int k - of_int (py_round x)\<bar>"
    by (metis of_int_1 of_int_abs of_int_diff of_int_le_iff)
  with py_round_half [of x] show ?thesis by linarith
qed

section \<open>Expiry of the power timer\<close>

text \<open>
  Claim C1, as stated: when the power timer expires, a ghost that is retreating (eaten)
  keeps its eaten flag. It fails on \<open>expiry_game\<close>: \<open>update_power_timer\<close> assigns
  \<open>False if g.eaten else g.eaten\<close> to \<open>eaten\<close>, which is False in both cases.
\<close>

theorem power_expiry_keeps_eaten_counterexample:
  "state expiry_game = STATE_POWER \<and> power_timer expiry_game - 1 / 60 \<le> 0 \<and>
   eaten (ghosts expiry_game ! 0) \<and>
   \<not> eaten (ghosts (update_power_timer expiry_game (1 / 60)) ! 0)"
  by (simp add: expiry_game_def update_power_timer_def Let_def)

text \<open>
  Claim C1, amended: when the mode is POWER and the timer reaches 0 or less, the mode
  becomes PLAYING and both the frightened and the eaten flag of every ghost are
  cleared; nothing else of a ghost changes.
\<close>

theorem power_expiry_clears_both_flags:
  "state gm = STATE_POWER \<Longrightarrow> power_timer gm - dt \<le> 0 \<Longrightarrow>
   state (update_power_timer gm dt) = STATE_PLAYING \<and>
   ghosts (update_power_timer gm dt) =
     map (\<lambda>g. g\<lparr>frightened := False, eaten := False\<rparr>) (ghosts gm) \<and>
   (\<forall>g \<in> set (ghosts (update_power_timer gm dt)). \<not> frightened g \<and> \<not> eaten g)"
  by (auto simp: update_power_timer_def Let_def)

theorem power_expiry_clears_both_flags_witness:
  "state expiry_game = STATE_POWER \<and> power_timer expiry_game - 1 / 60 \<le> 0 \<and>
   state (update_power_timer expiry_game (1 / 60)) = STATE_PLAYING \<and>
   ghosts (update_power_timer expiry_game (1 / 60)) =
     map (\<lambda>g. g\<lparr>frightened := False, eaten := False\<rparr>) (ghosts expiry_game) \<and>
   ghosts expiry_game \<noteq> [] \<and>
   \<not> frightened (hd (ghosts (update_power_timer expiry_game (1 / 60)))) \<and>
   \<not> eaten (hd (ghosts (update_power_timer expiry_game (1 / 60))))"
proof -
  have h1: "state expiry_game = STATE_POWER" by (simp add: expiry_game_def)
  have h2: "power_timer expiry_game - 1 / 60 \<le> 0" by (simp add: expiry_game_def)
  have h3: "ghosts expiry_game \<noteq> []" by (simp add: expiry_game_def)
  note t = power_expiry_clears_both_flags [OF h1 h2]
  from t have eq: "ghosts (update_power_timer expiry_game (1 / 60)) =
      map (\<lambda>g. g\<lparr>frightened := False, eaten := False\<rparr>) (ghosts expiry_game)"
    by (rule conjunct1 [OF conjunct2])
  from t have all: "\<forall>g \<in> set (ghosts (update_power_timer expiry_game (1 / 60))).
      \<not> frightened g \<and> \<not> eaten g"
    by (rule conjunct2 [OF conjunct2])
  from t have st: "state (update_power_timer expiry_game (1 / 60)) = STATE_PLAYING"
    by (rule conjunct1)
  have "ghosts (update_power_timer expiry_game (1 / 60)) \<noteq> []"
    unfolding eq using h3 by simp
  then have "hd (ghosts (update_power_timer expiry_game (1 / 60)))
      \<in> set (ghosts (update_power_timer expiry_game (1 / 60)))"
    by (rule hd_in_set)
  with all have "\<not> frightened (hd (ghosts (update_power_timer expiry_game (1 / 60)))) \<and>
      \<not> eaten (hd (ghosts (update_power_timer expiry_game (1 / 60))))"
    by (rule bspec)
  with h1 h2 h3 st eq show ?thesis by (intro conjI) simp_all
qed

section \<open>Turning\<close>

text \<open>
  Claim C4. The turn request at the head of \<open>Player.update\<close> changes the player only
  when the player is cell-centered and the cell one step in the requested direction from
  the rounded current cell is walkable. When moreover the requested direction differs
  from the current one, the direction becomes the requested one and both coordinates
  become the nearest integers. In every other case the player is unchanged.
\<close>

theorem turn_request:
  fixes p :: player
  defines "tc \<equiv> py_round (col p) + fst (next_dir p)"
    and "tr \<equiv> py_round (row p) + snd (next_dir p)"
  shows
    "(Player_turn p \<noteq> p \<longrightarrow> cell_centered p \<and> valid_cell tc tr) \<and>
     (cell_centered p \<and> next_dir p \<noteq> dir p \<and> valid_cell tc tr \<longrightarrow>
        dir (Player_turn p) = next_dir p \<and>
        col (Player_turn p) = of_int (py_round (col p)) \<and>
        row (Player_turn p) = of_int (py_round (row p)) \<and>
        (\<forall>k. \<bar>col p - col (Player_turn p)\<bar> \<le> \<bar>col p - of_int k\<bar>) \<and>
        (\<forall>k. \<bar>row p - row (Player_turn p)\<bar> \<le> \<bar>row p - of_int k\<bar>)) \<and>
     (\<not> (cell_centered p \<and> next_dir p \<noteq> dir p \<and> valid_cell tc tr) \<longrightarrow> Player_turn p = p)"
proof (cases "cell_centered p")
  case True
  then have c: "py_round (col p + of_int (fst (next_dir p))) = tc"
    and r: "py_round (row p + of_int (snd (next_dir p))) = tr"
    by (simp_all add: cell_centered_def Let_def py_round_add_int tc_def tr_def)
  show ?thesis
    using True py_round_nearest [of "col p"] py_round_nearest [of "row p"]
    by (auto simp: Player_turn_def set_dir_if_valid_def Let_def c r)
next
  case False
  then show ?thesis by (simp add: Player_turn_def)
qed

theorem turn_request_witness:
  "cell_centered turning_player \<and>
   next_dir turning_player \<noteq> dir turning_player \<and>
   valid_cell (py_round (col turning_player) + fst (next_dir turning_player))
              (py_round (row turning_player) + snd (next_dir turning_player)) \<and>
   dir (Player_turn turning_player) = (- 1, 0) \<and>
   col (Player_turn turning_player) = 12 \<and>
   row (Player_turn turning_player) = 14"
proof -
  have h1: "cell_centered turning_player" by code_simp
  have h2: "next_dir turning_player \<noteq> dir turning_player" by code_simp
  have h3: "valid_cell (py_round (col turning_player) + fst (next_dir turning_player))
                       (py_round (row turning_player) + snd (next_dir turning_player))"
    by code_simp
  have h4: "py_round (col turning_player) = 12" by code_simp
  have h5: "py_round (row turning_player) = 14" by code_simp
  have h6: "next_dir turning_player = (- 1, 0)" by code_simp
  from turn_request [of turning_player] h1 h2 h3
  have "dir (Player_turn turning_player) = next_dir turning_player \<and>
        col (Player_turn turning_player) = of_int (py_round (col turning_player)) \<and>
        row (Player_turn turning_player) = of_int (py_round (row turning_player))"
    by blast
  with h1 h2 h3 h4 h5 h6 show ?thesis by simp
qed

section \<open>Collisions\<close>

text \<open>
  Claim C6. When the ghost met in the collision loop shares the player's rounded cell
  and is frightened and not eaten, that pass of the loop adds exactly 200 to the
  score, sets the ghost's eaten flag and clears its frightened flag, leaves the lives
  unchanged and does not break; the other ghosts, the mode, the timer and the maze are
  unchanged.
\<close>

theorem collide_frightened:
  assumes "i < length (ghosts gm)"
    and "frightened (ghosts gm ! i)" and "\<not> eaten (ghosts gm ! i)"
    and "py_round (col (ghosts gm ! i)) = pc" and "py_round (row (ghosts gm ! i)) = pr"
  shows "\<exists>gm'. collide pc pr i gm = Inr (False, gm') \<and>
           score (player gm') = score (player gm) + 200 \<and>
           lives (player gm') = lives (player gm) \<and>
           eaten (ghosts gm' ! i) \<and> \<not> frightened (ghosts gm' ! i) \<and>
           length (ghosts gm') = length (ghosts gm) \<and>
           (\<forall>j. j \<noteq> i \<longrightarrow> ghosts gm' ! j = ghosts gm ! j) \<and>
           state gm' = state gm \<and> power_timer gm' = power_timer gm \<and> maze gm' = maze gm"
  using assms by (simp add: collide_def Let_def)

theorem collide_frightened_witness:
  "0 < length (ghosts frightened_meeting_game) \<and>
   frightened (ghosts frightened_meeting_game ! 0) \<and>
   \<not> eaten (ghosts frightened_meeting_game ! 0) \<and>
   py_round (col (ghosts frightened_meeting_game ! 0)) = 6 \<and>
   py_round (row (ghosts frightened_meeting_game ! 0)) = 5 \<and>
   (\<exists>gm'. collide 6 5 0 frightened_meeting_game = Inr (False, gm') \<and>
      score (player gm') = score (player frightened_meeting_game) + 200 \<and>
      lives (player gm') = lives (player frightened_meeting_game) \<and>
      eaten (ghosts gm' ! 0) \<and> \<not> frightened (ghosts gm' ! 0))"
proof -
  have h1: "0 < length (ghosts frightened_meeting_game)"
    by (simp add: frightened_meeting_game_def)
  have h2: "frightened (ghosts frightened_meeting_game ! 0)"
    by (simp add: frightened_meeting_game_def)
  have h3: "\<not> eaten (ghosts frightened_meeting_game ! 0)"
    by (simp add: frightened_meeting_game_def)
  have h4: "py_round (col (ghosts frightened_meeting_game ! 0)) = 6" by code_simp
  have h5: "py_round (row (ghosts frightened_meeting_game ! 0)) = 5" by code_simp
  from collide_frightened [OF h1 h2 h3 h4 h5] h1 h2 h3 h4 h5 show ?thesis by blast
qed

lemma lose_life_result:
  assumes "ghost_starts (maze gm) \<noteq> []"
  shows "\<exists>gm'. lose_life_and_reset_positions gm = Inr gm' \<and>
     lives (player gm') = lives (player gm) - 1 \<and>
     score (player gm') = score (player gm) \<and>
     col (player gm') = of_int (fst (player_start (maze gm))) \<and>
     row (player gm') = of_int (snd (player_start (maze gm))) \<and>
     dir (player gm') = (0, 0) \<and>
     maze gm' = maze gm \<and>
     length (ghosts gm') = length (ghosts gm) \<and>
     (\<forall>j < length (ghosts gm).
        col (ghosts gm' ! j) =
          of_int (fst (ghost_starts (maze gm) ! (j mod length (ghost_starts (maze gm))))) \<and>
        row (ghosts gm' ! j) =
          of_int (snd (ghost_starts (maze gm) ! (j mod length (ghost_starts (maze gm))))) \<and>
        dir (ghosts gm' ! j) = (0, 0) \<and>
        \<not> frightened (ghosts gm' ! j) \<and> \<not> eaten (ghosts gm' ! j)) \<and>
     state gm' = STATE_PLAYING \<and> power_timer gm' = 0"
  using assms
  by (simp add: lose_life_and_reset_positions_def Let_def nth_enumerate_eq)

lemma collide_loop_hit:
  assumes "\<exists>i \<in> set is. py_round (col (ghosts gm ! i)) = pc \<and> py_round (row (ghosts gm ! i)) = pr \<and>
              \<not> frightened (ghosts gm ! i) \<and> \<not> eaten (ghosts gm ! i)"
    and "\<forall>i \<in> set is. i < length (ghosts gm)"
  shows "\<exists>gm1. collide_loop pc pr is gm = lose_life_and_reset_positions gm1 \<and>
           maze gm1 = maze gm \<and> lives (player gm1) = lives (player gm) \<and>
           length (ghosts gm1) = length (ghosts gm)"
  using assms
proof (induction "is" arbitrary: gm)
  case Nil
  then show ?case by simp
next
  case (Cons i "is")
  define g where "g = ghosts gm ! i"
  show ?case
  proof (cases "py_round (col g) = pc \<and> py_round (row g) = pr \<and> \<not> frightened g \<and> \<not> eaten g")
    case True
    then have "collide_loop pc pr (i # is) gm = lose_life_and_reset_positions gm"
      by (auto simp: collide_def Let_def g_def split: sum.splits)
    then show ?thesis by blast
  next
    case False
    define gm2 where "gm2 =
      (if py_round (col g) = pc \<and> py_round (row g) = pr \<and> frightened g \<and> \<not> eaten g
       then gm\<lparr>player := (player gm)\<lparr>score := score (player gm) + 200\<rparr>,
               ghosts := (ghosts gm)[i := g\<lparr>eaten := True, frightened := False\<rparr>]\<rparr>
       else gm)"
    have step: "collide_loop pc pr (i # is) gm = collide_loop pc pr is gm2"
      using False by (auto simp: collide_def Let_def g_def gm2_def)
    have same: "maze gm2 = maze gm" "lives (player gm2) = lives (player gm)"
      "length (ghosts gm2) = length (ghosts gm)"
      by (simp_all add: gm2_def)
    have other: "\<And>j. j \<noteq> i \<Longrightarrow> ghosts gm2 ! j = ghosts gm ! j"
      by (simp add: gm2_def)
    from Cons.prems(1) obtain j where j: "j \<in> set (i # is)"
      "py_round (col (ghosts gm ! j)) = pc" "py_round (row (ghosts gm ! j)) = pr"
      "\<not> frightened (ghosts gm ! j)" "\<not> eaten (ghosts gm ! j)"
      by blast
    with False have ji: "j \<noteq> i" by (auto simp: g_def)
    with j have "j \<in> set is" by simp
    then have jin: "j \<in> set is" .
    from other [OF ji] have eq: "ghosts gm2 ! j = ghosts gm ! j" .
    have ex: "\<exists>i \<in> set is. py_round (col (ghosts gm2 ! i)) = pc \<and>
        py_round (row (ghosts gm2 ! i)) = pr \<and>
        \<not> frightened (ghosts gm2 ! i) \<and> \<not> eaten (ghosts gm2 ! i)"
      using jin j(2-5) unfolding eq [symmetric] by (intro bexI [of _ j]) simp_all
    have bnd: "\<forall>i \<in> set is. i < length (ghosts gm2)"
      using Cons.prems(2) same by simp
    from Cons.IH [OF ex bnd] step same show ?thesis by auto
  qed
qed

lemma map_revive_id: "\<forall>g \<in> set gs. \<not> eaten g \<Longrightarrow> map revive gs = gs"
  by (induction gs) (simp_all add: revive_def)

text \<open>
  Claim C7. When some ghost that is neither frightened nor eaten shares the player's
  rounded cell and the maze has a ghost start, \<open>handle_collisions\<close> returns with the
  lives decremented by exactly 1, the player at its start cell with direction (0, 0),
  every ghost at its start cell with direction (0, 0) and both flags cleared, the mode
  PLAYING and the power timer 0. The loop stops at the first such ghost, so one life is
  lost however many ghosts share the cell.
\<close>

theorem capture_by_normal_ghost:
  assumes "i < length (ghosts gm)"
    and "\<not> frightened (ghosts gm ! i)" and "\<not> eaten (ghosts gm ! i)"
    and "py_round (col (ghosts gm ! i)) = py_round (col (player gm))"
    and "py_round (row (ghosts gm ! i)) = py_round (row (player gm))"
    and "ghost_starts (maze gm) \<noteq> []"
  shows "\<exists>gm'. handle_collisions gm = Inr gm' \<and>
     lives (player gm') = lives (player gm) - 1 \<and>
     col (player gm') = of_int (fst (player_start (maze gm))) \<and>
     row (player gm') = of_int (snd (player_start (maze gm))) \<and>
     dir (player gm') = (0, 0) \<and>
     length (ghosts gm') = length (ghosts gm) \<and>
     (\<forall>j < length (ghosts gm).
        col (ghosts gm' ! j) =
          of_int (fst (ghost_starts (maze gm) ! (j mod length (ghost_starts (maze gm))))) \<and>
        row (ghosts gm' ! j) =
          of_int (snd (ghost_starts (maze gm) ! (j mod length (ghost_starts (maze gm))))) \<and>
        dir (ghosts gm' ! j) = (0, 0) \<and>
        \<not> frightened (ghosts gm' ! j) \<and> \<not> eaten (ghosts gm' ! j)) \<and>
     state gm' = STATE_PLAYING \<and> power_timer gm' = 0"
proof -
  define pc where "pc = py_round (col (player gm))"
  define pr where "pr = py_round (row (player gm))"
  have ex: "\<exists>i \<in> set [0..<length (ghosts gm)]. py_round (col (ghosts gm ! i)) = pc \<and>
      py_round (row (ghosts gm ! i)) = pr \<and>
      \<not> frightened (ghosts gm ! i) \<and> \<not> eaten (ghosts gm ! i)"
    using assms by (auto simp: pc_def pr_def)
  have bnd: "\<forall>i \<in> set [0..<length (ghosts gm)]. i < length (ghosts gm)" by simp
  from collide_loop_hit [OF ex bnd] obtain gm1 where
    l: "collide_loop pc pr [0..<length (ghosts gm)] gm = lose_life_and_reset_positions gm1"
    and m: "maze gm1 = maze gm" "lives (player gm1) = lives (player gm)"
      "length (ghosts gm1) = length (ghosts gm)"
    by blast
  from assms(6) m have "ghost_starts (maze gm1) \<noteq> []" by simp
  from lose_life_result [OF this] obtain gm2 where
    r: "lose_life_and_reset_positions gm1 = Inr gm2"
    and p: "lives (player gm2) = lives (player gm1) - 1"
      "col (player gm2) = of_int (fst (player_start (maze gm1)))"
      "row (player gm2) = of_int (snd (player_start (maze gm1)))"
      "dir (player gm2) = (0, 0)"
      "length (ghosts gm2) = length (ghosts gm1)"
      "state gm2 = STATE_PLAYING" "power_timer gm2 = 0"
    and q: "\<forall>j < length (ghosts gm1).
        col (ghosts gm2 ! j) =
          of_int (fst (ghost_starts (maze gm1) ! (j mod length (ghost_starts (maze gm1))))) \<and>
        row (ghosts gm2 ! j) =
          of_int (snd (ghost_starts (maze gm1) ! (j mod length (ghost_starts (maze gm1))))) \<and>
        dir (ghosts gm2 ! j) = (0, 0) \<and>
        \<not> frightened (ghosts gm2 ! j) \<and> \<not> eaten (ghosts gm2 ! j)"
    by blast
  have "\<forall>g \<in> set (ghosts gm2). \<not> eaten g"
    using q p(5) by (auto simp: in_set_conv_nth)
  then have rv: "map revive (ghosts gm2) = ghosts gm2" by (rule map_revive_id)
  have "handle_collisions gm = Inr gm2"
    using l r rv by (simp add: handle_collisions_def Let_def pc_def pr_def)
  with p q m show ?thesis by simp
qed

theorem capture_by_normal_ghost_witness:
  "1 < length (ghosts normal_meeting_game) \<and>
   \<not> frightened (ghosts normal_meeting_game ! 1) \<and>
   \<not> eaten (ghosts normal_meeting_game ! 1) \<and>
   py_round (col (ghosts normal_meeting_game ! 1)) = py_round (col (player normal_meeting_game)) \<and>
   py_round (row (ghosts normal_meeting_game ! 1)) = py_round (row (player normal_meeting_game)) \<and>
   ghost_starts (maze normal_meeting_game) \<noteq> [] \<and>
   (\<exists>gm'. handle_collisions normal_meeting_game = Inr gm' \<and>
      lives (player gm') = lives (player normal_meeting_game) - 1 \<and>
      dir (player gm') = (0, 0) \<and>
      state gm' = STATE_PLAYING \<and> power_timer gm' = 0)"
proof -
  have h1: "1 < length (ghosts normal_meeting_game)"
    by (simp add: normal_meeting_game_def)
  have h2: "\<not> frightened (ghosts normal_meeting_game ! 1)"
    by (simp add: normal_meeting_game_def)
  have h3: "\<not> eaten (ghosts normal_meeting_game ! 1)"
    by (simp add: normal_meeting_game_def)
  have h4: "py_round (col (ghosts normal_meeting_game ! 1)) =
            py_round (col (player normal_meeting_game))" by code_simp
  have h5: "py_round (row (ghosts normal_meeting_game ! 1)) =
            py_round (row (player normal_meeting_game))" by code_simp
  have h6: "ghost_starts (maze normal_meeting_game) \<noteq> []"
    by (simp add: normal_meeting_game_def)
  from capture_by_normal_ghost [OF h1 h2 h3 h4 h5 h6] h1 h2 h3 h4 h5 h6
  show ?thesis by blast
qed

section \<open>Level clear\<close>

text \<open>
  Claim C8. When both the pellets and the power pellets are empty at the level-clear
  check of \<open>Game.update\<close>, the check performs one \<open>reset_level\<close>: the maze is a fresh
  \<open>Maze()\<close>, the player and the ghosts are at their start cells with direction (0, 0)
  and cleared flags, the mode is PLAYING, the power timer is 0, and the score and the
  lives are exactly those before the reset.
\<close>

theorem level_clear_soft_reset:
  assumes "pellets (maze gm) = {}" and "power_pellets (maze gm) = {}"
  shows "update_level_clear gm =
           (reset_level False gm)\<lparr>player := (player (reset_level False gm))
              \<lparr>score := score (player gm), lives := lives (player gm)\<rparr>\<rparr> \<and>
         maze (update_level_clear gm) = Maze_init \<and>
         score (player (update_level_clear gm)) = score (player gm) \<and>
         lives (player (update_level_clear gm)) = lives (player gm) \<and>
         col (player (update_level_clear gm)) = of_int (fst (player_start Maze_init)) \<and>
         row (player (update_level_clear gm)) = of_int (snd (player_start Maze_init)) \<and>
         dir (player (update_level_clear gm)) = (0, 0) \<and>
         length (ghosts (update_level_clear gm)) = min 4 (length (ghost_starts Maze_init)) \<and>
         (\<forall>i < min 4 (length (ghost_starts Maze_init)).
            col (ghosts (update_level_clear gm) ! i) = of_int (fst (ghost_starts Maze_init ! i)) \<and>
            row (ghosts (update_level_clear gm) ! i) = of_int (snd (ghost_starts Maze_init ! i)) \<and>
            dir (ghosts (update_level_clear gm) ! i) = (0, 0) \<and>
            \<not> frightened (ghosts (update_level_clear gm) ! i) \<and>
            \<not> eaten (ghosts (update_level_clear gm) ! i)) \<and>
         state (update_level_clear gm) = STATE_PLAYING \<and>
         power_timer (update_level_clear gm) = 0"
proof -
  have u: "update_level_clear gm =
           (reset_level False gm)\<lparr>player := (player (reset_level False gm))
              \<lparr>score := score (player gm), lives := lives (player gm)\<rparr>\<rparr>"
    using assms by (simp add: update_level_clear_def Let_def)
  have m: "maze (reset_level False gm) = Maze_init"
    and p: "player (reset_level False gm) =
            Player_init (fst (player_start Maze_init)) (snd (player_start Maze_init))"
    and s: "state (reset_level False gm) = STATE_PLAYING"
    and t: "power_timer (reset_level False gm) = 0"
    and g: "ghosts (reset_level False gm) =
       map (\<lambda>i. Ghost_init (fst (ghost_starts Maze_init ! i)) (snd (ghost_starts Maze_init ! i))
                 ([RED, PINK, CYAN, ORANGE] ! (i mod 4)))
           [0..<min 4 (length (ghost_starts Maze_init))]"
    by (simp_all add: reset_level_def Let_def)
  have gi: "\<forall>i < min 4 (length (ghost_starts Maze_init)).
            col (ghosts (reset_level False gm) ! i) = of_int (fst (ghost_starts Maze_init ! i)) \<and>
            row (ghosts (reset_level False gm) ! i) = of_int (snd (ghost_starts Maze_init ! i)) \<and>
            dir (ghosts (reset_level False gm) ! i) = (0, 0) \<and>
            \<not> frightened (ghosts (reset_level False gm) ! i) \<and>
            \<not> eaten (ghosts (reset_level False gm) ! i)"
    unfolding g by (simp add: Ghost_init_def)
  have gl: "length (ghosts (reset_level False gm)) = min 4 (length (ghost_starts Maze_init))"
    unfolding g by simp
  show ?thesis
    unfolding u using m p s t gi gl by (simp add: Player_init_def)
qed

theorem level_clear_soft_reset_witness:
  "pellets (maze cleared_game) = {} \<and> power_pellets (maze cleared_game) = {} \<and>
   maze (update_level_clear cleared_game) = Maze_init \<and>
   score (player (update_level_clear cleared_game)) = 2660 \<and>
   lives (player (update_level_clear cleared_game)) = 2 \<and>
   state (update_level_clear cleared_game) = STATE_PLAYING \<and>
   power_timer (update_level_clear cleared_game) = 0"
proof -
  have h1: "pellets (maze cleared_game) = {}" by (simp add: cleared_game_def)
  have h2: "power_pellets (maze cleared_game) = {}" by (simp add: cleared_game_def)
  have h3: "score (player cleared_game) = 2660" "lives (player cleared_game) = 2"
    by (simp_all add: cleared_game_def)
  from level_clear_soft_reset [OF h1 h2]
  have "maze (update_level_clear cleared_game) = Maze_init \<and>
        score (player (update_level_clear cleared_game)) = score (player cleared_game) \<and>
        lives (player (update_level_clear cleared_game)) = lives (player cleared_game) \<and>
        state (update_level_clear cleared_game) = STATE_PLAYING \<and>
        power_timer (update_level_clear cleared_game) = 0"
    by blast
  with h1 h2 h3 show ?thesis by metis
qed

section \<open>The snapshot of the player's cell\<close>

lemma ghosts_loop_length:
  "length (fst (ghosts_loop sh dt ppos gs rng)) = length gs"
  by (induction gs arbitrary: rng) (simp_all add: Let_def case_prod_beta)

lemma ghosts_loop_nth:
  "j < length gs \<Longrightarrow>
   \<exists>r. fst (ghosts_loop sh dt ppos gs rng) ! j = fst (Ghost_update sh (gs ! j) dt ppos r)"
proof (induction gs arbitrary: rng j)
  case Nil
  then show ?case by simp
next
  case (Cons g gs)
  show ?case
  proof (cases j)
    case 0
    then show ?thesis
      by (auto simp: Let_def split: prod.splits intro: exI [of _ rng])
  next
    case (Suc k)
    with Cons.prems have "k < length gs" by simp
    from Cons.IH [OF this, of "snd (Ghost_update sh g dt ppos rng)"] Suc
    show ?thesis by (auto simp: Let_def split: prod.splits)
  qed
qed

text \<open>
  Claim C9. In a tick the player is updated first; \<open>update_ghosts\<close> then takes one
  snapshot of the player's rounded cell, and the new value of every ghost is
  \<open>Ghost_update\<close> of its old value with that one snapshot. The ghost loop leaves the
  player as it is, and its result depends on the player only through the snapshot: two
  states with the same ghosts, the same rounded player cell and the same random source
  give the same ghosts and the same random source. \<open>update\<close> is a function of the
  state, the keys, dt and the random source, so equal inputs give equal results.
\<close>

theorem ghosts_read_one_snapshot:
  fixes shuffle :: "'r shuffle"
  defines "ppos \<equiv> \<lambda>gm. (py_round (col (player gm)), py_round (row (player gm)))"
  shows
    "player (fst (update_ghosts shuffle gm dt rng)) = player gm \<and>
     length (ghosts (fst (update_ghosts shuffle gm dt rng))) = length (ghosts gm) \<and>
     (\<forall>j < length (ghosts gm). \<exists>r.
        ghosts (fst (update_ghosts shuffle gm dt rng)) ! j =
          fst (Ghost_update shuffle (ghosts gm ! j) dt (ppos gm) r)) \<and>
     (\<forall>gm2. ghosts gm2 = ghosts gm \<and> ppos gm2 = ppos gm \<longrightarrow>
        ghosts (fst (update_ghosts shuffle gm2 dt rng)) =
          ghosts (fst (update_ghosts shuffle gm dt rng)) \<and>
        snd (update_ghosts shuffle gm2 dt rng) = snd (update_ghosts shuffle gm dt rng)) \<and>
     (\<forall>gm2 rng2. gm2 = gm \<and> rng2 = rng \<longrightarrow>
        update shuffle gm2 pressed dt rng2 = update shuffle gm pressed dt rng) \<and>
     update shuffle gm pressed dt rng =
       (case handle_collisions (fst (update_ghosts shuffle (update_player gm pressed dt) dt rng)) of
          Inl e \<Rightarrow> Inl e
        | Inr gm3 \<Rightarrow> Inr (update_power_timer (update_game_over (update_level_clear gm3)) dt,
                        snd (update_ghosts shuffle (update_player gm pressed dt) dt rng)))"
proof -
  have a: "player (fst (update_ghosts shuffle gm dt rng)) = player gm"
    by (simp add: update_ghosts_def Let_def split: prod.splits)
  have g: "ghosts (fst (update_ghosts shuffle gm dt rng)) =
           fst (ghosts_loop shuffle dt (ppos gm) (ghosts gm) rng)" for gm
    by (simp add: update_ghosts_def Let_def ppos_def split: prod.splits)
  have s: "snd (update_ghosts shuffle gm dt rng) =
           snd (ghosts_loop shuffle dt (ppos gm) (ghosts gm) rng)" for gm
    by (simp add: update_ghosts_def Let_def ppos_def split: prod.splits)
  have b: "length (ghosts (fst (update_ghosts shuffle gm dt rng))) = length (ghosts gm)"
    by (simp add: g ghosts_loop_length)
  have c: "\<forall>j < length (ghosts gm). \<exists>r.
        ghosts (fst (update_ghosts shuffle gm dt rng)) ! j =
          fst (Ghost_update shuffle (ghosts gm ! j) dt (ppos gm) r)"
    by (simp add: g ghosts_loop_nth)
  have d: "\<forall>gm2. ghosts gm2 = ghosts gm \<and> ppos gm2 = ppos gm \<longrightarrow>
        ghosts (fst (update_ghosts shuffle gm2 dt rng)) =
          ghosts (fst (update_ghosts shuffle gm dt rng)) \<and>
        snd (update_ghosts shuffle gm2 dt rng) = snd (update_ghosts shuffle gm dt rng)"
    by (simp add: g s)
  have e: "update shuffle gm pressed dt rng =
       (case handle_collisions (fst (update_ghosts shuffle (update_player gm pressed dt) dt rng)) of
          Inl e \<Rightarrow> Inl e
        | Inr gm3 \<Rightarrow> Inr (update_power_timer (update_game_over (update_level_clear gm3)) dt,
                        snd (update_ghosts shuffle (update_player gm pressed dt) dt rng)))"
    by (simp add: update_def Let_def case_prod_beta)
  from a b c d e show ?thesis by blast
qed

theorem ghosts_read_one_snapshot_witness:
  "0 < length (ghosts frightened_meeting_game) \<and>
   player (fst (update_ghosts flip_shuffle frightened_meeting_game (1 / 60) 0)) =
     player frightened_meeting_game \<and>
   (\<exists>r. ghosts (fst (update_ghosts flip_shuffle frightened_meeting_game (1 / 60) 0)) ! 0 =
      fst (Ghost_update flip_shuffle (ghosts frightened_meeting_game ! 0) (1 / 60)
             (py_round (col (player frightened_meeting_game)),
              py_round (row (player frightened_meeting_game))) r))"
proof -
  have h: "0 < length (ghosts frightened_meeting_game)"
    by (simp add: frightened_meeting_game_def)
  from ghosts_read_one_snapshot
    [where shuffle = flip_shuffle and gm = frightened_meeting_game and dt = "1 / 60"
       and rng = 0 and pressed = no_keys] h
  show ?thesis by blast
qed

section \<open>Frightened and eaten exclude each other\<close>

lemma update_move_flags:
  "frightened (update_move g dt) = frightened g" "eaten (update_move g dt) = eaten g"
  by (simp_all add: update_move_def Let_def)

lemma Ghost_update_flags:
  "frightened (fst (Ghost_update sh g dt ppos rng)) = frightened g \<and>
   eaten (fst (Ghost_update sh g dt ppos rng)) = eaten g"
  by (simp add: Ghost_update_def Let_def update_move_flags split: prod.splits)


lemma ghosts_loop_flags:
  "\<forall>g \<in> set gs. \<not> (frightened g \<and> eaten g) \<Longrightarrow>
   \<forall>g \<in> set (fst (ghosts_loop sh dt ppos gs rng)). \<not> (frightened g \<and> eaten g)"
  by (induction gs arbitrary: rng) (simp_all add: Let_def case_prod_beta Ghost_update_flags)

lemma update_ghosts_exclusive:
  "flags_exclusive gm \<Longrightarrow> flags_exclusive (fst (update_ghosts sh gm dt rng))"
  using ghosts_loop_flags [of "ghosts gm" sh dt _ rng]
  by (simp add: flags_exclusive_def update_ghosts_def Let_def case_prod_beta)

lemma set_power_mode_exclusive:
  "flags_exclusive gm \<Longrightarrow> flags_exclusive (set_power_mode gm)"
  by (auto simp: flags_exclusive_def set_power_mode_def)

lemma update_player_exclusive:
  "flags_exclusive gm \<Longrightarrow> flags_exclusive (update_player gm pressed dt)"
proof -
  assume a: "flags_exclusive gm"
  define t where "t = Player_update (handle_input (player gm) pressed) (maze gm) dt"
  define gm1 where "gm1 = gm\<lparr>player := fst (snd t), maze := snd (snd t)\<rparr>"
  have "flags_exclusive gm1" using a by (simp add: flags_exclusive_def gm1_def)
  then have "flags_exclusive (if fst t = Some ''power'' then set_power_mode gm1 else gm1)"
    by (simp add: set_power_mode_exclusive)
  moreover have "update_player gm pressed dt =
      (if fst t = Some ''power'' then set_power_mode gm1 else gm1)"
    by (simp add: update_player_def Let_def case_prod_beta t_def gm1_def)
  ultimately show ?thesis by simp
qed

lemma lose_life_exclusive:
  "lose_life_and_reset_positions gm = Inr gm' \<Longrightarrow> flags_exclusive gm'"
  by (auto simp: lose_life_and_reset_positions_def Let_def flags_exclusive_def
      split: if_splits)

lemma collide_exclusive:
  "flags_exclusive gm \<Longrightarrow> collide pc pr i gm = Inr (brk, gm') \<Longrightarrow> flags_exclusive gm'"
proof -
  assume a: "flags_exclusive gm" and c: "collide pc pr i gm = Inr (brk, gm')"
  have upd: "flags_exclusive (gm\<lparr>player := p, ghosts := (ghosts gm)[i := g]\<rparr>)"
    if "\<not> (frightened g \<and> eaten g)" for p g
    using a that by (auto simp: flags_exclusive_def dest!: set_update_subset_insert [THEN subsetD])
  from c show ?thesis
    using a upd lose_life_exclusive
    by (auto simp: collide_def Let_def split: if_splits sum.splits)
qed

lemma collide_loop_exclusive:
  "flags_exclusive gm \<Longrightarrow> collide_loop pc pr is gm = Inr gm' \<Longrightarrow> flags_exclusive gm'"
proof (induction "is" arbitrary: gm)
  case Nil
  then show ?case by simp
next
  case (Cons i "is")
  from Cons.prems(2) obtain brk gm1 where c: "collide pc pr i gm = Inr (brk, gm1)"
    by (auto split: sum.splits)
  from collide_exclusive [OF Cons.prems(1) c] have e: "flags_exclusive gm1" .
  show ?case
  proof (cases brk)
    case True
    with c Cons.prems(2) e show ?thesis by simp
  next
    case False
    with c Cons.prems(2) have "collide_loop pc pr is gm1 = Inr gm'" by simp
    from Cons.IH [OF e this] show ?thesis .
  qed
qed

lemma handle_collisions_exclusive:
  "flags_exclusive gm \<Longrightarrow> handle_collisions gm = Inr gm' \<Longrightarrow> flags_exclusive gm'"
proof -
  assume a: "flags_exclusive gm" and h: "handle_collisions gm = Inr gm'"
  from h obtain gm1 where
    l: "collide_loop (py_round (col (player gm))) (py_round (row (player gm)))
          [0..<length (ghosts gm)] gm = Inr gm1"
    and r: "gm' = gm1\<lparr>ghosts := map revive (ghosts gm1)\<rparr>"
    by (auto simp: handle_collisions_def Let_def split: sum.splits)
  from collide_loop_exclusive [OF a l] have "flags_exclusive gm1" .
  then show ?thesis unfolding r by (auto simp: flags_exclusive_def revive_def)
qed

lemma reset_level_exclusive: "flags_exclusive (reset_level full gm)"
  by (simp add: flags_exclusive_def reset_level_def Let_def Ghost_init_def)

lemma update_level_clear_exclusive:
  "flags_exclusive gm \<Longrightarrow> flags_exclusive (update_level_clear gm)"
  using reset_level_exclusive [of False gm]
  by (simp add: update_level_clear_def Let_def flags_exclusive_def)

lemma update_game_over_exclusive:
  "flags_exclusive gm \<Longrightarrow> flags_exclusive (update_game_over gm)"
  by (simp add: update_game_over_def flags_exclusive_def)

lemma update_power_timer_exclusive:
  "flags_exclusive gm \<Longrightarrow> flags_exclusive (update_power_timer gm dt)"
  by (simp add: update_power_timer_def Let_def flags_exclusive_def)

lemma update_exclusive:
  assumes "flags_exclusive gm" and "update sh gm pressed dt rng = Inr (gm', rng')"
  shows "flags_exclusive gm'"
proof -
  define gm2 where "gm2 = fst (update_ghosts sh (update_player gm pressed dt) dt rng)"
  have e2: "flags_exclusive gm2"
    unfolding gm2_def by (intro update_ghosts_exclusive update_player_exclusive assms(1))
  from assms(2) obtain gm3 where h: "handle_collisions gm2 = Inr gm3"
    and r: "gm' = update_power_timer (update_game_over (update_level_clear gm3)) dt"
    by (auto simp: update_def Let_def case_prod_beta gm2_def split: sum.splits)
  from handle_collisions_exclusive [OF e2 h] show ?thesis
    unfolding r
    by (intro update_power_timer_exclusive update_game_over_exclusive
        update_level_clear_exclusive)
qed

text \<open>
  Claim C10. In every reachable state of the game no ghost is frightened and eaten at the
  same time.
\<close>

theorem frightened_eaten_exclusive:
  "reachable sh gm \<Longrightarrow> \<forall>g \<in> set (ghosts gm). \<not> (frightened g \<and> eaten g)"
proof -
  assume "reachable sh gm"
  then have "flags_exclusive gm"
  proof (induction rule: reachable.induct)
    case (start gm0)
    show ?case by (rule reset_level_exclusive)
  next
    case (tick gm pressed dt rng gm' rng')
    from update_exclusive [OF tick.IH tick.hyps(3)] show ?case .
  next
    case (restart gm)
    show ?case by (rule reset_level_exclusive)
  qed
  then show ?thesis by (simp add: flags_exclusive_def)
qed

lemma ghost_starts_Maze_init: "ghost_starts Maze_init \<noteq> []"
  by (simp add: Maze_init_def split: prod.splits)

lemma ghosts_reset_level: "ghosts (reset_level full gm) \<noteq> []"
  using ghost_starts_Maze_init by (simp add: reset_level_def Let_def)

theorem frightened_eaten_exclusive_witness:
  "reachable flip_shuffle (reset_level True cleared_game) \<and>
   ghosts (reset_level True cleared_game) \<noteq> [] \<and>
   \<not> (frightened (hd (ghosts (reset_level True cleared_game))) \<and>
      eaten (hd (ghosts (reset_level True cleared_game))))"
proof -
  have h: "reachable flip_shuffle (reset_level True cleared_game)" by (rule reachable.start)
  have n: "ghosts (reset_level True cleared_game) \<noteq> []" by (rule ghosts_reset_level)
  then have "hd (ghosts (reset_level True cleared_game))
      \<in> set (ghosts (reset_level True cleared_game))"
    by simp
  with frightened_eaten_exclusive [OF h] h n show ?thesis by blast
qed

section \<open>Power pellets\<close>

text \<open>
  Claim C5, as stated: after the tick in which the player consumes a power pellet the
  power timer equals exactly 8. It fails on \<open>power_pellet_game\<close> with dt = 1/10: the
  same tick ends with \<open>update_power_timer\<close>, which leaves 8 - dt.
\<close>

theorem power_timer_after_tick_counterexample:
  "fst (Player_update (handle_input (player power_pellet_game) no_keys)
                      (maze power_pellet_game) (1 / 10)) = Some ''power'' \<and>
   power_timer (fst (projr (update flip_shuffle power_pellet_game no_keys (1 / 10) 0))) = 79 / 10 \<and>
   power_timer (fst (projr (update flip_shuffle power_pellet_game no_keys (1 / 10) 0))) \<noteq> 8"
proof -
  have a: "fst (Player_update (handle_input (player power_pellet_game) no_keys)
                      (maze power_pellet_game) (1 / 10)) = Some ''power'' \<and>
    power_timer (fst (projr (update flip_shuffle power_pellet_game no_keys (1 / 10) 0))) = 79 / 10"
    by code_simp
  then show ?thesis by simp
qed

lemma score_update_move: "score (update_move p dt) = score p"
  by (simp add: update_move_def Let_def)

lemma score_Player_turn: "score (Player_turn p) = score p"
  by (simp add: Player_turn_def set_dir_if_valid_def Let_def)

lemma Player_update_cases:
  fixes p :: player and dt :: rat
  defines "p1 \<equiv> update_move (Player_turn p) dt"
  defines "cell \<equiv> (py_round (col p1), py_round (row p1))"
  shows "Player_update p mz dt =
     (if cell \<in> pellets mz then
        (if cell \<in> power_pellets mz
         then (Some ''power'', p1\<lparr>score := score p1 + 10 + 50\<rparr>,
               mz\<lparr>pellets := pellets mz - {cell}, power_pellets := power_pellets mz - {cell}\<rparr>)
         else (None, p1\<lparr>score := score p1 + 10\<rparr>, mz\<lparr>pellets := pellets mz - {cell}\<rparr>))
      else
        (if cell \<in> power_pellets mz
         then (Some ''power'', p1\<lparr>score := score p1 + 50\<rparr>,
               mz\<lparr>power_pellets := power_pellets mz - {cell}\<rparr>)
         else (None, p1, mz)))"
  unfolding Player_update_def p1_def [symmetric] Let_def cell_def [symmetric]
  by (cases "cell \<in> pellets mz") simp_all

lemma Player_update_power:
  assumes "fst (Player_update p mz dt) = Some ''power''"
    and "pellets mz \<inter> power_pellets mz = {}"
  shows "score (fst (snd (Player_update p mz dt))) = score p + 50"
proof -
  define p1 where "p1 = update_move (Player_turn p) dt"
  define cell where "cell = (py_round (col p1), py_round (row p1))"
  have s1: "score p1 = score p"
    by (simp add: p1_def score_update_move score_Player_turn)
  note c = Player_update_cases [where p = p and dt = dt and mz = mz, folded p1_def, folded cell_def]
  from assms(1) have pw: "cell \<in> power_pellets mz"
    unfolding c by (simp split: if_splits)
  with assms(2) have np: "cell \<notin> pellets mz" by auto
  show ?thesis unfolding c using pw np s1 by simp
qed


lemma lives_update_move: "lives (update_move p dt) = lives p"
  by (simp add: update_move_def Let_def)

lemma lives_Player_turn: "lives (Player_turn p) = lives p"
  by (simp add: Player_turn_def set_dir_if_valid_def Let_def)

lemma lives_Player_update: "lives (fst (snd (Player_update p mz dt))) = lives p"
  unfolding Player_update_cases by (simp add: lives_update_move lives_Player_turn)

lemma update_player_power:
  assumes "fst (Player_update (handle_input (player gm) pressed) (maze gm) dt) = Some ''power''"
    and "pellets (maze gm) \<inter> power_pellets (maze gm) = {}"
  shows "state (update_player gm pressed dt) = STATE_POWER"
    and "power_timer (update_player gm pressed dt) = 8"
    and "score (player (update_player gm pressed dt)) = score (player gm) + 50"
    and "lives (player (update_player gm pressed dt)) = lives (player gm)"
    and "ghosts (update_player gm pressed dt) =
           map (\<lambda>g. if \<not> eaten g then g\<lparr>frightened := True\<rparr> else g) (ghosts gm)"
proof -
  define t where "t = Player_update (handle_input (player gm) pressed) (maze gm) dt"
  define gm1 where "gm1 = gm\<lparr>player := fst (snd t), maze := snd (snd t)\<rparr>"
  have u: "update_player gm pressed dt = set_power_mode gm1"
    using assms(1) by (simp add: update_player_def Let_def case_prod_beta t_def gm1_def)
  have "score (fst (snd t)) = score (handle_input (player gm) pressed) + 50"
    unfolding t_def by (rule Player_update_power [OF assms(1) assms(2)])
  then have sc: "score (player gm1) = score (player gm) + 50"
    by (simp add: gm1_def handle_input_def)
  have "lives (fst (snd t)) = lives (handle_input (player gm) pressed)"
    unfolding t_def by (rule lives_Player_update)
  then have lv: "lives (player gm1) = lives (player gm)"
    by (simp add: gm1_def handle_input_def)
  have gh: "ghosts gm1 = ghosts gm" by (simp add: gm1_def)
  show "state (update_player gm pressed dt) = STATE_POWER"
    and "power_timer (update_player gm pressed dt) = 8"
    and "score (player (update_player gm pressed dt)) = score (player gm) + 50"
    and "lives (player (update_player gm pressed dt)) = lives (player gm)"
    and "ghosts (update_player gm pressed dt) =
           map (\<lambda>g. if \<not> eaten g then g\<lparr>frightened := True\<rparr> else g) (ghosts gm)"
    unfolding u using sc lv gh by (simp_all add: set_power_mode_def POWER_DURATION_def)
qed

lemma ghosts_loop_nth_flags:
  assumes "j < length gs"
  shows "frightened (fst (ghosts_loop sh dt ppos gs rng) ! j) = frightened (gs ! j) \<and>
         eaten (fst (ghosts_loop sh dt ppos gs rng) ! j) = eaten (gs ! j)"
proof -
  from ghosts_loop_nth [OF assms, of sh dt ppos rng] obtain r where
    "fst (ghosts_loop sh dt ppos gs rng) ! j = fst (Ghost_update sh (gs ! j) dt ppos r)"
    by blast
  then show ?thesis by (simp add: Ghost_update_flags)
qed

lemma update_ghosts_frame:
  "player (fst (update_ghosts sh gm dt rng)) = player gm"
  "state (fst (update_ghosts sh gm dt rng)) = state gm"
  "power_timer (fst (update_ghosts sh gm dt rng)) = power_timer gm"
  "ghosts (fst (update_ghosts sh gm dt rng)) =
     fst (ghosts_loop sh dt (py_round (col (player gm)), py_round (row (player gm)))
            (ghosts gm) rng)"
  by (simp_all add: update_ghosts_def Let_def case_prod_beta)

lemma collide_no_meeting:
  assumes "eaten (ghosts gm ! i) \<or>
     \<not> (py_round (col (ghosts gm ! i)) = pc \<and> py_round (row (ghosts gm ! i)) = pr)"
  shows "collide pc pr i gm = Inr (False, gm)"
  using assms by (auto simp: collide_def Let_def)

lemma collide_loop_no_meeting:
  assumes "\<forall>i \<in> set is. eaten (ghosts gm ! i) \<or>
     \<not> (py_round (col (ghosts gm ! i)) = pc \<and> py_round (row (ghosts gm ! i)) = pr)"
  shows "collide_loop pc pr is gm = Inr gm"
  using assms by (induction "is") (simp_all add: collide_no_meeting)

lemma revive_flags:
  "\<not> eaten g \<Longrightarrow> revive g = g"
  "frightened (revive g) \<Longrightarrow> frightened g"
  by (simp_all add: revive_def split: if_splits)

text \<open>
  Claim C5, amended. Let the player's update of a tick consume a power pellet (no cell
  being both a pellet and a power pellet), and let the rest of that tick be quiet: after
  the ghosts have moved no ghost that is not eaten is in the player's rounded cell, a
  pellet or power pellet is left, the player has a life left, and dt < 8. Then the tick
  returns, and after it the mode is POWER, the power timer is 8 - dt (the tick ends with
  its own timer update), the score has increased by exactly 50, the lives are unchanged,
  every ghost that was not eaten is frightened and still not eaten, and no eaten ghost
  has been flipped to frightened.
\<close>

theorem power_pellet_tick:
  fixes shuffle :: "'r shuffle"
  assumes trigger:
      "fst (Player_update (handle_input (player gm) pressed) (maze gm) dt) = Some ''power''"
    and disjoint: "pellets (maze gm) \<inter> power_pellets (maze gm) = {}"
    and apart: "\<forall>g \<in> set (ghosts (fst (update_ghosts shuffle (update_player gm pressed dt) dt rng))).
        \<not> eaten g \<longrightarrow>
        \<not> (py_round (col g) = py_round (col (player (update_player gm pressed dt))) \<and>
           py_round (row g) = py_round (row (player (update_player gm pressed dt))))"
    and left: "\<not> (pellets (maze (update_player gm pressed dt)) = {} \<and>
                 power_pellets (maze (update_player gm pressed dt)) = {})"
    and alive: "0 < lives (player gm)"
    and short: "dt < 8"
  shows "\<exists>gm' rng'. update shuffle gm pressed dt rng = Inr (gm', rng') \<and>
     state gm' = STATE_POWER \<and>
     power_timer gm' = 8 - dt \<and>
     score (player gm') = score (player gm) + 50 \<and>
     lives (player gm') = lives (player gm) \<and>
     length (ghosts gm') = length (ghosts gm) \<and>
     (\<forall>j < length (ghosts gm).
        (\<not> eaten (ghosts gm ! j) \<longrightarrow>
           frightened (ghosts gm' ! j) \<and> \<not> eaten (ghosts gm' ! j)) \<and>
        (eaten (ghosts gm ! j) \<longrightarrow>
           (frightened (ghosts gm' ! j) \<longrightarrow> frightened (ghosts gm ! j))))"
proof -
  define g1 where "g1 = update_player gm pressed dt"
  define g2 where "g2 = fst (update_ghosts shuffle g1 dt rng)"
  define g3 where "g3 = g2\<lparr>ghosts := map revive (ghosts g2)\<rparr>"
  note p = update_player_power [OF trigger disjoint, folded g1_def]
  note f = update_ghosts_frame [of shuffle g1 dt rng, folded g2_def]
  have len1: "length (ghosts g1) = length (ghosts gm)" unfolding p(5) by simp
  have len2: "length (ghosts g2) = length (ghosts gm)"
    unfolding f(4) by (simp add: ghosts_loop_length len1)
  have fl2: "frightened (ghosts g2 ! j) = frightened (ghosts g1 ! j) \<and>
             eaten (ghosts g2 ! j) = eaten (ghosts g1 ! j)" if "j < length (ghosts gm)" for j
    unfolding f(4) using that len1 by (simp add: ghosts_loop_nth_flags)
  have fl1: "eaten (ghosts g1 ! j) = eaten (ghosts gm ! j) \<and>
             (\<not> eaten (ghosts gm ! j) \<longrightarrow> frightened (ghosts g1 ! j)) \<and>
             (eaten (ghosts gm ! j) \<longrightarrow> frightened (ghosts g1 ! j) = frightened (ghosts gm ! j))"
    if "j < length (ghosts gm)" for j
    unfolding p(5) using that by simp
  have nm: "\<forall>i \<in> set [0..<length (ghosts g2)]. eaten (ghosts g2 ! i) \<or>
      \<not> (py_round (col (ghosts g2 ! i)) = py_round (col (player g2)) \<and>
         py_round (row (ghosts g2 ! i)) = py_round (row (player g2)))"
  proof
    fix i assume "i \<in> set [0..<length (ghosts g2)]"
    then have "ghosts g2 ! i \<in> set (ghosts g2)" by simp
    with apart show "eaten (ghosts g2 ! i) \<or>
      \<not> (py_round (col (ghosts g2 ! i)) = py_round (col (player g2)) \<and>
         py_round (row (ghosts g2 ! i)) = py_round (row (player g2)))"
      unfolding g1_def [symmetric] g2_def [symmetric] f(1) by blast
  qed
  have hc: "handle_collisions g2 = Inr g3"
    using collide_loop_no_meeting [OF nm] by (simp add: handle_collisions_def Let_def g3_def)
  have mz: "maze g3 = maze g1"
    by (simp add: g3_def g2_def update_ghosts_def Let_def case_prod_beta)
  from left have "\<not> (pellets (maze g3) = {} \<and> power_pellets (maze g3) = {})"
    unfolding mz g1_def .
  then have lc: "update_level_clear g3 = g3"
    by (simp only: update_level_clear_def if_False)
  have pl: "player g3 = player g1" by (simp add: g3_def f(1))
  have go: "update_game_over g3 = g3"
    using alive by (simp add: update_game_over_def pl p(4))
  have st: "state g3 = STATE_POWER" "power_timer g3 = 8"
    by (simp_all add: g3_def f(2,3) p(1,2))
  have pt: "update_power_timer g3 dt = g3\<lparr>power_timer := 8 - dt\<rparr>"
    using short by (simp add: update_power_timer_def Let_def st)
  have up: "update shuffle gm pressed dt rng =
      Inr (g3\<lparr>power_timer := 8 - dt\<rparr>, snd (update_ghosts shuffle g1 dt rng))"
    using hc by (simp add: update_def Let_def case_prod_beta g1_def [symmetric]
        g2_def [symmetric] lc go pt)
  have gh: "(\<not> eaten (ghosts gm ! j) \<longrightarrow>
           frightened (ghosts g3 ! j) \<and> \<not> eaten (ghosts g3 ! j)) \<and>
        (eaten (ghosts gm ! j) \<longrightarrow>
           (frightened (ghosts g3 ! j) \<longrightarrow> frightened (ghosts gm ! j)))"
    if j: "j < length (ghosts gm)" for j
  proof -
    have g3j: "ghosts g3 ! j = revive (ghosts g2 ! j)"
      using j len2 by (simp add: g3_def)
    show ?thesis
    proof (cases "eaten (ghosts gm ! j)")
      case True
      with fl1 [OF j] fl2 [OF j] revive_flags(2) [of "ghosts g2 ! j"] show ?thesis
        unfolding g3j by auto
    next
      case False
      with fl1 [OF j] fl2 [OF j] have "\<not> eaten (ghosts g2 ! j)" "frightened (ghosts g2 ! j)"
        by simp_all
      with False revive_flags(1) [of "ghosts g2 ! j"] show ?thesis unfolding g3j by simp
    qed
  qed
  have "state (g3\<lparr>power_timer := 8 - dt\<rparr>) = STATE_POWER"
    "power_timer (g3\<lparr>power_timer := 8 - dt\<rparr>) = 8 - dt"
    "score (player (g3\<lparr>power_timer := 8 - dt\<rparr>)) = score (player gm) + 50"
    "lives (player (g3\<lparr>power_timer := 8 - dt\<rparr>)) = lives (player gm)"
    "length (ghosts (g3\<lparr>power_timer := 8 - dt\<rparr>)) = length (ghosts gm)"
    "ghosts (g3\<lparr>power_timer := 8 - dt\<rparr>) = ghosts g3"
    by (simp_all add: g3_def len2 f(1,2,3) p(1,2,3,4))
  with up gh show ?thesis by (intro exI [of _ "g3\<lparr>power_timer := 8 - dt\<rparr>"]
        exI [of _ "snd (update_ghosts shuffle g1 dt rng)"]) simp
qed

theorem power_pellet_tick_witness:
  "fst (Player_update (handle_input (player power_pellet_game) no_keys)
                      (maze power_pellet_game) (1 / 10)) = Some ''power'' \<and>
   state (fst (projr (update flip_shuffle power_pellet_game no_keys (1 / 10) 0))) = STATE_POWER \<and>
   power_timer (fst (projr (update flip_shuffle power_pellet_game no_keys (1 / 10) 0))) = 79 / 10 \<and>
   score (player (fst (projr (update flip_shuffle power_pellet_game no_keys (1 / 10) 0)))) = 50 \<and>
   frightened (ghosts (fst (projr (update flip_shuffle power_pellet_game no_keys (1 / 10) 0))) ! 0)"
proof -
  have h1: "fst (Player_update (handle_input (player power_pellet_game) no_keys)
                      (maze power_pellet_game) (1 / 10)) = Some ''power''"
    by code_simp
  have h2: "pellets (maze power_pellet_game) \<inter> power_pellets (maze power_pellet_game) = {}"
    by (simp add: power_pellet_game_def)
  have h3: "\<forall>g \<in> set (ghosts (fst (update_ghosts flip_shuffle
        (update_player power_pellet_game no_keys (1 / 10)) (1 / 10) 0))).
      \<not> eaten g \<longrightarrow>
      \<not> (py_round (col g) =
           py_round (col (player (update_player power_pellet_game no_keys (1 / 10)))) \<and>
         py_round (row g) =
           py_round (row (player (update_player power_pellet_game no_keys (1 / 10)))))"
    by code_simp
  have h4: "\<not> (pellets (maze (update_player power_pellet_game no_keys (1 / 10))) = {} \<and>
               power_pellets (maze (update_player power_pellet_game no_keys (1 / 10))) = {})"
    by code_simp
  have h5: "0 < lives (player power_pellet_game)" by (simp add: power_pellet_game_def)
  have h6: "(1 / 10 :: rat) < 8" by simp
  have g: "0 < length (ghosts power_pellet_game)" "\<not> eaten (ghosts power_pellet_game ! 0)"
    "score (player power_pellet_game) = 0"
    by (simp_all add: power_pellet_game_def Ghost_init_def)
  from power_pellet_tick [OF h1 h2 h3 h4 h5 h6] obtain gm' rng' where
    u: "update flip_shuffle power_pellet_game no_keys (1 / 10) 0 = Inr (gm', rng')"
    and a: "state gm' = STATE_POWER" "power_timer gm' = 8 - 1 / 10"
      "score (player gm') = score (player power_pellet_game) + 50"
    and b: "\<forall>j < length (ghosts power_pellet_game).
        (\<not> eaten (ghosts power_pellet_game ! j) \<longrightarrow>
           frightened (ghosts gm' ! j) \<and> \<not> eaten (ghosts gm' ! j)) \<and>
        (eaten (ghosts power_pellet_game ! j) \<longrightarrow>
           (frightened (ghosts gm' ! j) \<longrightarrow> frightened (ghosts power_pellet_game ! j)))"
    by blast
  from b g have f: "frightened (ghosts gm' ! 0)" by blast
  have p: "fst (projr (update flip_shuffle power_pellet_game no_keys (1 / 10) 0)) = gm'"
    by (simp add: u)
  show ?thesis unfolding p using h1 a f g(3) by simp
qed

text \<open>
  Each condition of the quiet tick is needed. A ghost met on the power pellet is eaten
  in the same tick: the score rises by 250 and that ghost ends the tick eaten, not
  frightened. A level cleared by the power pellet resets the mode to PLAYING.
\<close>

lemma capture_in_power_tick:
  "fst (Player_update (handle_input (player power_capture_game) no_keys)
                      (maze power_capture_game) (1 / 10)) = Some ''power'' \<and>
   score (player (fst (projr (update flip_shuffle power_capture_game no_keys (1 / 10) 0)))) = 250 \<and>
   \<not> frightened (ghosts (fst (projr (update flip_shuffle power_capture_game no_keys (1 / 10) 0))) ! 0)"
  by code_simp

lemma level_clear_ends_power:
  assumes "pellets (maze g) = {}" and "power_pellets (maze g) = {}" and "0 < lives (player g)"
  shows "state (update_power_timer (update_game_over (update_level_clear g)) dt) = STATE_PLAYING"
  using assms
  by (simp add: update_power_timer_def update_game_over_def update_level_clear_def
      reset_level_def Let_def)

section \<open>Tunnel wraparound\<close>

lemma COLS_eq: "COLS = 28"
  by (simp add: COLS_def MAZE_LAYOUT_def)

lemma is_wall_beyond: "28 \<le> c \<Longrightarrow> is_wall c r"
  by (simp add: is_wall_def COLS_eq)

lemma py_round_ge_floor: "\<lfloor>x\<rfloor> \<le> py_round x"
  by (simp add: py_round_def Let_def)

lemma py_round_last_half: "55 / 2 \<le> x \<Longrightarrow> 28 \<le> py_round x"
proof -
  assume a: "55 / 2 \<le> x"
  then have f: "27 \<le> \<lfloor>x\<rfloor>" by (simp add: le_floor_iff)
  show ?thesis
  proof (cases "\<lfloor>x\<rfloor> = 27")
    case True
    with a have "1 / 2 \<le> x - of_int \<lfloor>x\<rfloor>" by simp
    with True show ?thesis by (simp add: py_round_def Let_def)
  next
    case False
    with f have "28 \<le> \<lfloor>x\<rfloor>" by linarith
    with py_round_ge_floor [of x] show ?thesis by linarith
  qed
qed

lemma sample_in_last_half:
  fixes c d :: rat
  assumes "c < 55 / 2" and "28 \<le> c + d * of_nat n" and "0 < n" and "d < 1 / 2"
  shows "\<exists>i < n. 55 / 2 \<le> c + d * of_nat (i + 1) \<and> c + d * of_nat (i + 1) < 28"
proof -
  define P where "P = (\<lambda>i. 55 / 2 \<le> c + d * of_nat (i + 1))"
  have Pn: "P (n - 1)" using assms(2,3) by (simp add: P_def)
  define k where "k = (LEAST i. P i)"
  have Pk: "P k" unfolding k_def using Pn by (rule LeastI)
  have kn: "k \<le> n - 1" unfolding k_def using Pn by (rule Least_le)
  have "c + d * of_nat (k + 1) < 28"
  proof (cases k)
    case 0
    with assms(1,4) show ?thesis by simp
  next
    case (Suc j)
    then have "j < k" by simp
    then have "\<not> P j" unfolding k_def by (rule not_less_Least)
    then have "c + d * of_nat (j + 1) < 55 / 2" by (simp add: P_def)
    moreover have "c + d * of_nat (k + 1) = c + d * of_nat (j + 1) + d"
      by (simp add: Suc algebra_simps)
    ultimately show ?thesis using assms(4) by simp
  qed
  with Pk kn assms(3) show ?thesis by (intro exI [of _ k]) (simp add: P_def)
qed

lemma sample_spacing:
  fixes dc m :: rat
  assumes "1 / 2 < dc" and "dc \<le> m"
  shows "dc / of_nat (nat (max 1 (py_int (m * 4)))) < 1 / 2"
proof -
  have m: "1 / 2 < m" using assms by simp
  then have p: "py_int (m * 4) = \<lfloor>m * 4\<rfloor>" by (simp add: py_int_def)
  have "2 \<le> \<lfloor>m * 4\<rfloor>" using m by (simp add: le_floor_iff)
  then have s: "of_nat (nat (max 1 (py_int (m * 4)))) = (of_int \<lfloor>m * 4\<rfloor> :: rat)"
    by (simp add: p)
  have "m * 4 - 1 < of_int \<lfloor>m * 4\<rfloor>" by linarith
  with m assms(2) have "2 * dc < of_int \<lfloor>m * 4\<rfloor>" by linarith
  moreover have "(0::rat) < of_int \<lfloor>m * 4\<rfloor>" using \<open>2 \<le> \<lfloor>m * 4\<rfloor>\<close> by simp
  ultimately show ?thesis unfolding s by (simp add: field_simps)
qed


text \<open>
  Claim C3 says that the tunnel wraps in both directions: an entity that moves right off
  the last column reappears at column 0, as one that moves left off column 0 reappears
  at the last column. The code does not do that. From a cell that is not a wall a move
  whose candidate column is at or beyond COLS is never committed, so the branch that
  sets the column to 0 is never reached: the samples are less than half a cell apart,
  one of them falls in [COLS - 1/2, COLS), it is not wrapped, and it rounds to column
  COLS, which \<open>is_wall\<close> reports as a wall.
\<close>

theorem right_wrap_never_commits:
  assumes start: "\<not> is_wall (py_round (col e)) (py_round (row e))"
    and beyond: "of_int COLS \<le> col e + of_int (fst (dir e)) * speed e * dt"
  shows "update_move e dt = e"
proof -
  define nc where "nc = col e + of_int (fst (dir e)) * speed e * dt"
  define nr where "nr = row e + of_int (snd (dir e)) * speed e * dt"
  define m where "m = max \<bar>nc - col e\<bar> \<bar>nr - row e\<bar>"
  define steps where "steps = nat (max 1 (py_int (m * 4)))"
  define d where "d = (nc - col e) / of_nat steps"
  have pos: "0 < steps" by (simp add: steps_def)
  have c: "col e < 55 / 2"
  proof (rule ccontr)
    assume "\<not> col e < 55 / 2"
    then have "28 \<le> py_round (col e)" by (simp add: py_round_last_half)
    with start show False by (simp add: is_wall_beyond)
  qed
  have n: "28 \<le> nc" using beyond by (simp add: nc_def COLS_eq)
  with c have dc: "1 / 2 < nc - col e" by simp
  have "nc - col e \<le> m" by (simp add: m_def)
  from sample_spacing [OF dc this] have sp: "d < 1 / 2" by (simp add: d_def steps_def)
  have "col e + d * of_nat steps = nc" using pos by (simp add: d_def)
  with n have "28 \<le> col e + d * of_nat steps" by simp
  from sample_in_last_half [OF c this pos sp] obtain i where i: "i < steps"
    "55 / 2 \<le> col e + d * of_nat (i + 1)" "col e + d * of_nat (i + 1) < 28"
    by blast
  define x where "x = col e + (nc - col e) * (of_nat (i + 1) / of_nat steps)"
  have x: "x = col e + d * of_nat (i + 1)" by (simp add: x_def d_def)
  have "tunnel_wrap x = x" using i(2,3) by (simp add: tunnel_wrap_def x COLS_eq)
  moreover have "28 \<le> py_round x" using i(2) by (simp add: x py_round_last_half)
  ultimately have w: "is_wall (py_round (tunnel_wrap x))
      (py_round (row e + (nr - row e) * (of_nat (i + 1) / of_nat steps)))"
    by (simp add: is_wall_beyond)
  have "\<not> samples_clear (col e) (row e) nc nr steps [0..<steps]"
  proof
    assume s: "samples_clear (col e) (row e) nc nr steps [0..<steps]"
    have "i \<in> set [0..<steps]" using i(1) by simp
    from samples_clear_nth [OF s this] w show False by (simp add: x_def)
  qed
  then show ?thesis
    by (simp add: update_move_def Let_def nc_def nr_def steps_def m_def)
qed

theorem right_wrap_never_commits_witness:
  "\<not> is_wall (py_round (col right_edge_entity)) (py_round (row right_edge_entity)) \<and>
   of_int COLS \<le> col right_edge_entity
      + of_int (fst (dir right_edge_entity)) * speed right_edge_entity * (1 / 8) \<and>
   update_move right_edge_entity (1 / 8) = right_edge_entity"
proof -
  have h1: "\<not> is_wall (py_round (col right_edge_entity)) (py_round (row right_edge_entity))"
    by code_simp
  have h2: "of_int COLS \<le> col right_edge_entity
      + of_int (fst (dir right_edge_entity)) * speed right_edge_entity * (1 / 8)"
    by code_simp
  from right_wrap_never_commits [OF h1 h2] h1 h2 show ?thesis by blast
qed

text \<open>
  At the frame rate of the game (dt = 1/60) an entity moving right in the tunnel row
  stops short of the edge, while the same step to the left wraps to column 27.
\<close>

lemma stuck_before_right_edge:
  "update_move \<lparr>col = 137 / 5, row = 14, dir = (1, 0), speed = 8\<rparr> (1 / 60) =
     \<lparr>col = 137 / 5, row = 14, dir = (1, 0), speed = 8\<rparr>"
  by code_simp

lemma left_wraps_small_step:
  "update_move \<lparr>col = 1 / 10, row = 14, dir = (- 1, 0), speed = 8\<rparr> (1 / 60) =
     \<lparr>col = 27, row = 14, dir = (- 1, 0), speed = 8\<rparr>"
  by code_simp

lemma left_wraps:
  "update_move left_edge_entity (1 / 8) = \<lparr>col = 27, row = 14, dir = (- 1, 0), speed = 8\<rparr>"
  by code_simp

text \<open>
  When a move towards the left commits a candidate column below 0, the entity ends at
  the last column with the candidate row: the left half of the tunnel works.
\<close>

lemma left_wrap_on_commit:
  fixes e :: "'a entity_scheme" and dt :: rat
  defines "nc \<equiv> col e + of_int (fst (dir e)) * speed e * dt"
    and "nr \<equiv> row e + of_int (snd (dir e)) * speed e * dt"
  defines "steps \<equiv> nat (max 1 (py_int (max \<bar>nc - col e\<bar> \<bar>nr - row e\<bar> * 4)))"
  assumes "samples_clear (col e) (row e) nc nr steps [0..<steps]" and "nc < 0"
  shows "col (update_move e dt) = of_int (COLS - 1) \<and> row (update_move e dt) = nr"
  using assms(4,5)
  by (simp add: update_move_def Let_def tunnel_wrap_def nc_def nr_def steps_def)

section \<open>The tick returns on reachable states\<close>

text \<open>
  The only raise of the tick is the modulo by \<open>len(ghost_starts)\<close>. Every maze built by
  \<open>Maze.__init__\<close> has a ghost start, and the tick changes only the pellet sets of a
  maze, so on every reachable state \<open>update\<close> returns a state.
\<close>

lemma collide_total:
  assumes "ghost_starts (maze gm) \<noteq> []"
  shows "\<exists>brk gm'. collide pc pr i gm = Inr (brk, gm') \<and> maze gm' = maze gm"
proof -
  from lose_life_result [OF assms] obtain gm1 where
    "lose_life_and_reset_positions gm = Inr gm1" "maze gm1 = maze gm"
    by blast
  then show ?thesis by (auto simp: collide_def Let_def)
qed

lemma collide_loop_total:
  "ghost_starts (maze gm) \<noteq> [] \<Longrightarrow>
   \<exists>gm'. collide_loop pc pr is gm = Inr gm' \<and> maze gm' = maze gm"
proof (induction "is" arbitrary: gm)
  case Nil
  then show ?case by simp
next
  case (Cons i "is")
  from collide_total [OF Cons.prems, of pc pr i] obtain brk gm1 where
    c: "collide pc pr i gm = Inr (brk, gm1)" and m: "maze gm1 = maze gm"
    by blast
  from Cons.prems m have "ghost_starts (maze gm1) \<noteq> []" by simp
  from Cons.IH [OF this] obtain gm2 where
    "collide_loop pc pr is gm1 = Inr gm2" "maze gm2 = maze gm1"
    by blast
  with c m show ?case by (cases brk) simp_all
qed

lemma handle_collisions_total:
  assumes "ghost_starts (maze gm) \<noteq> []"
  shows "\<exists>gm'. handle_collisions gm = Inr gm' \<and> maze gm' = maze gm"
proof -
  from collide_loop_total [OF assms] obtain gm1 where
    "collide_loop (py_round (col (player gm))) (py_round (row (player gm)))
       [0..<length (ghosts gm)] gm = Inr gm1" "maze gm1 = maze gm"
    by blast
  then show ?thesis by (simp add: handle_collisions_def Let_def)
qed

lemma ghost_starts_update_player:
  "ghost_starts (maze (update_player gm pressed dt)) = ghost_starts (maze gm)"
proof -
  have "ghost_starts (snd (snd (Player_update p mz dt))) = ghost_starts mz" for p mz
    unfolding Player_update_cases by simp
  then show ?thesis
    by (simp add: update_player_def Let_def case_prod_beta set_power_mode_def)
qed

lemma maze_update_ghosts: "maze (fst (update_ghosts sh gm dt rng)) = maze gm"
  by (simp add: update_ghosts_def Let_def case_prod_beta)

lemma update_total:
  assumes "ghost_starts (maze gm) \<noteq> []"
  shows "\<exists>gm' rng'. update sh gm pressed dt rng = Inr (gm', rng') \<and>
           ghost_starts (maze gm') \<noteq> []"
proof -
  define gm2 where "gm2 = fst (update_ghosts sh (update_player gm pressed dt) dt rng)"
  have "ghost_starts (maze gm2) \<noteq> []"
    using assms by (simp add: gm2_def maze_update_ghosts ghost_starts_update_player)
  from handle_collisions_total [OF this] obtain gm3 where
    h: "handle_collisions gm2 = Inr gm3" and m: "maze gm3 = maze gm2"
    by blast
  have s: "ghost_starts (maze gm3) \<noteq> []"
    using m assms by (simp add: gm2_def maze_update_ghosts ghost_starts_update_player)
  have lc: "ghost_starts (maze (update_level_clear gm3)) \<noteq> []"
    using s ghost_starts_Maze_init
    by (simp add: update_level_clear_def Let_def reset_level_def)
  have "maze (update_power_timer (update_game_over g) dt) = maze g" for g
    by (simp add: update_power_timer_def update_game_over_def Let_def)
  with lc have "ghost_starts (maze (update_power_timer (update_game_over
      (update_level_clear gm3)) dt)) \<noteq> []"
    by simp
  with h show ?thesis
    by (simp add: update_def Let_def case_prod_beta gm2_def)
qed

lemma reachable_ghost_starts: "reachable sh gm \<Longrightarrow> ghost_starts (maze gm) \<noteq> []"
proof (induction rule: reachable.induct)
  case (start gm0)
  show ?case using ghost_starts_Maze_init by (simp add: reset_level_def Let_def)
next
  case (tick gm pressed dt rng gm' rng')
  from update_total [OF tick.IH, of sh pressed dt rng] tick.hyps(3) show ?case by auto
next
  case (restart gm)
  show ?case using ghost_starts_Maze_init by (simp add: reset_level_def Let_def)
qed

lemma reachable_update_returns:
  assumes "reachable sh0 gm"
  shows "\<exists>gm' rng'. update sh gm pressed dt rng = Inr (gm', rng')"
  using update_total [OF reachable_ghost_starts [OF assms], of sh pressed dt rng] by blast

end
